theory Spec2Isabelle
  imports Complex_Main
begin

section \<open>Values, entities and filter queries\<close>

text \<open>
  The JavaScript values that travel through the CRUD layer. A number is \<open>NaN\<close>, an
  infinity, or finite (every finite double is a rational); an ObjectId is kept as its
  hexadecimal text, and \<open>VDate s\<close> is the object \<open>new Date(s)\<close>.
\<close>

datatype jsnum = NaN | Finite rat | PosInfinity | NegInfinity

datatype jsval =
    VUndefined
  | VNull
  | VStr string
  | VNum jsnum
  | VBool bool
  | VOid string
  | VDate string

text \<open>An entity instance is an object: a finite map from property names to values.\<close>

type_synonym entity = "string \<rightharpoonup> jsval"

definition prop_of :: "entity \<Rightarrow> string \<Rightarrow> jsval" where
  "prop_of e k = (case e k of None \<Rightarrow> VUndefined | Some v \<Rightarrow> v)"

text \<open>
  A \<open>FilterQuery\<close> object of the mapping layer: one condition per property, all of
  which a row has to satisfy. \<open>Eq v\<close> is the plain value \<open>{ k: v }\<close>, \<open>Cond P\<close> an
  operator object on that property. An object has one entry per key, kept in
  insertion order.
\<close>

datatype cond = Eq jsval | Cond "jsval \<Rightarrow> bool"

type_synonym filter_query = "(string \<times> cond) list"

fun holds :: "cond \<Rightarrow> jsval \<Rightarrow> bool" where
  "holds (Eq v) x = (x = v)"
| "holds (Cond P) x = P x"

definition matches :: "filter_query \<Rightarrow> entity \<Rightarrow> bool" where
  "matches w e = list_all (\<lambda>(k, c). holds c (prop_of e k)) w"

text \<open>\<open>obj[k] = v\<close> on an object kept as an association list.\<close>

fun obj_set :: "string \<Rightarrow> 'a \<Rightarrow> (string \<times> 'a) list \<Rightarrow> (string \<times> 'a) list" where
  "obj_set k v [] = [(k, v)]"
| "obj_set k v ((k', v') # kvs) =
     (if k' = k then (k, v) # kvs else (k', v') # obj_set k v kvs)"

text \<open>\<open>Object.assign(target, source)\<close> and the spread \<open>{ ...a, ...b }\<close>.\<close>

definition obj_assign :: "(string \<times> 'a) list \<Rightarrow> (string \<times> 'a) list \<Rightarrow> (string \<times> 'a) list" where
  "obj_assign target source = fold (\<lambda>(k, v) acc. obj_set k v acc) source target"

text \<open>
  What calling a user-supplied option function evaluates to: nothing (no function, or
  it returned \<open>undefined\<close>), a plain object, or a promise of one. \<open>CrudOptions.filter\<close>
  is declared to return \<open>FilterQuery<T> | Promise<FilterQuery<T>>\<close>.
\<close>

datatype 'a returned = Nothing | Plain 'a | Promise 'a

text \<open>\<open>await x\<close>: a promise is resolved, anything else is passed through.\<close>

fun await :: "'a returned \<Rightarrow> 'a option" where
  "await Nothing = None"
| "await (Plain a) = Some a"
| "await (Promise a) = Some a"

text \<open>
  \<open>{ ...(x ?? {}) }\<close> without \<open>await\<close>: a promise is not nullish, and spreading it
  copies its own enumerable properties, of which it has none.
\<close>

fun spread_returned :: "(string \<times> 'a) list returned \<Rightarrow> (string \<times> 'a) list" where
  "spread_returned Nothing = []"
| "spread_returned (Plain a) = a"
| "spread_returned (Promise a) = []"

section \<open>The runtime's conversions\<close>

text \<open>
  \<open>Number(s)\<close> and \<open>new ObjectId(s)\<close> belong to the language runtime and to the
  database driver. They are parameters of the model: \<open>toNumber\<close> gives the number a
  text denotes (\<open>NaN\<close> when it denotes none), \<open>newObjectId\<close> gives the identifier's
  hexadecimal text, or nothing when the constructor throws.
\<close>

record runtime =
  toNumber :: "string \<Rightarrow> jsnum"
  newObjectId :: "string \<Rightarrow> string option"

definition isNaN :: "jsval \<Rightarrow> bool" where
  "isNaN v = (v = VNum NaN)"

text \<open>
  What \<open>@Query('page')\<close> and \<open>@Query('limit')\<close> deliver. No pipe is attached, so the
  framework hands over what the query string holds: nothing, or a text. A number
  arrives only where the application converts parameters to their declared type.
\<close>

datatype query_param = QAbsent | QText string | QNum jsnum

text \<open>\<open>!x\<close> is true of nothing, of the empty text, of 0 and of \<open>NaN\<close>.\<close>

fun falsy :: "query_param \<Rightarrow> bool" where
  "falsy QAbsent = True"
| "falsy (QText t) = (t = [])"
| "falsy (QNum n) = (n = NaN \<or> n = Finite 0)"

text \<open>The number an operand of \<open>*\<close> or \<open>/\<close> is converted to.\<close>

fun to_num :: "runtime \<Rightarrow> query_param \<Rightarrow> jsnum" where
  "to_num rt QAbsent = NaN"
| "to_num rt (QText t) = toNumber rt t"
| "to_num rt (QNum n) = n"

text \<open>
  Multiplication, division and \<open>Math.ceil\<close> on numbers. Finite values are computed
  exactly: the rounding of doubles and the sign of zero are left out.
\<close>

fun sign_of :: "jsnum \<Rightarrow> rat" where
  "sign_of NaN = 0"
| "sign_of (Finite a) = sgn a"
| "sign_of PosInfinity = 1"
| "sign_of NegInfinity = - 1"

definition infinity_of :: "rat \<Rightarrow> jsnum" where
  "infinity_of sg = (if sg = 0 then NaN else if 0 < sg then PosInfinity else NegInfinity)"

fun js_times :: "jsnum \<Rightarrow> jsnum \<Rightarrow> jsnum" where
  "js_times NaN b = NaN"
| "js_times a NaN = NaN"
| "js_times (Finite a) (Finite b) = Finite (a * b)"
| "js_times a b = infinity_of (sign_of a * sign_of b)"

fun js_divide :: "jsnum \<Rightarrow> jsnum \<Rightarrow> jsnum" where
  "js_divide NaN b = NaN"
| "js_divide a NaN = NaN"
| "js_divide (Finite a) (Finite b) = (if b = 0 then infinity_of (sgn a) else Finite (a / b))"
| "js_divide (Finite a) b = Finite 0"
| "js_divide a (Finite b) = infinity_of (sign_of a * (if b = 0 then 1 else sgn b))"
| "js_divide a b = NaN"

fun js_ceil :: "jsnum \<Rightarrow> jsnum" where
  "js_ceil (Finite a) = Finite (of_int \<lceil>a\<rceil>)"
| "js_ceil n = n"

text \<open>The natural number that a number is, if it is one, and the number of a natural.\<close>

fun as_nat :: "jsnum \<Rightarrow> nat option" where
  "as_nat (Finite a) = (if 0 \<le> a \<and> a = of_int \<lfloor>a\<rfloor> then Some (nat \<lfloor>a\<rfloor>) else None)"
| "as_nat n = None"

fun param_as_nat :: "query_param \<Rightarrow> nat option" where
  "param_as_nat (QNum n) = as_nat n"
| "param_as_nat q = None"

definition js_number :: "nat \<Rightarrow> jsnum" where
  "js_number k = Finite (of_nat k)"

text \<open>Text helpers: \<open>toLowerCase\<close> on ASCII, \<open>startsWith\<close>, \<open>includes\<close>, and decimal numerals.\<close>

definition lower_char :: "char \<Rightarrow> char" where
  "lower_char c =
     (let n = (of_char c :: nat) in if 65 \<le> n \<and> n \<le> 90 then char_of (n + 32) else c)"

definition toLowerCase :: "string \<Rightarrow> string" where
  "toLowerCase s = map lower_char s"

fun startsWith :: "string \<Rightarrow> string \<Rightarrow> bool" where
  "startsWith s [] = True"
| "startsWith [] (p # ps) = False"
| "startsWith (c # cs) (p # ps) = (c = p \<and> startsWith cs ps)"

fun includes_str :: "string \<Rightarrow> string \<Rightarrow> bool" where
  "includes_str [] sub = (sub = [])"
| "includes_str (c # cs) sub = (startsWith (c # cs) sub \<or> includes_str cs sub)"

definition digit_char :: "nat \<Rightarrow> char" where
  "digit_char d = char_of (48 + d)"

fun decimal :: "nat \<Rightarrow> string" where
  "decimal n = (if n < 10 then [digit_char n] else decimal (n div 10) @ [digit_char (n mod 10)])"

declare decimal.simps [simp del]

section \<open>Entity metadata\<close>

text \<open>
  A type as the metadata carries it: the name of a type (\<open>'string'\<close>, \<open>'number'\<close>,
  \<open>'ObjectId'\<close>, ...) or a constructor. \<open>TObjectId\<close> is the mapping layer's ObjectId,
  \<open>TMongoObjectId\<close> the driver's.
\<close>

datatype js_type =
    TName string
  | TString
  | TNumber
  | TBoolean
  | TDate
  | TArray
  | TObjectId
  | TMongoObjectId
  | TClass string

text \<open>An \<open>EntityProperty\<close> of the mapping layer, with the members this code reads.\<close>

record entity_property =
  name :: string
  ptype :: "js_type option"
  primary :: bool
  persist :: "bool option"
  autoincrement :: bool
  onCreate :: bool
  onUpdate :: bool
  version :: bool
  nullable :: bool
  array :: bool
  enum :: bool
  items :: "jsval list option"
  columnTypes :: "string list"
  integer :: bool

record entity_meta =
  primaryKeys :: "string list"
  properties :: "(string \<times> entity_property) list"

text \<open>An entry of the serialisation layer's exposed or excluded metadata.\<close>

record transformer_meta =
  tm_propertyName :: "string option"
  tm_toPlainOnly :: bool
  tm_name :: "string option"

datatype strategy = StrategyNone | ExcludeAll | ExposeAll

record descriptor =
  has_get :: bool
  writable :: bool

text \<open>
  What reflection answers for one class of the entity's inheritance chain: the
  serialisation strategy and metadata, the documented properties and their
  \<open>readOnly\<close> flag, the prototype's own property names and descriptors, and the
  \<open>custom:readonly\<close> metadata that \<open>@ReadOnly()\<close> defines.
\<close>

record class_level =
  getStrategy :: strategy
  getExposedMetadatas :: "transformer_meta list"
  getExcludedMetadatas :: "transformer_meta list"
  apiModelPropertiesArray :: "string list"
  apiModelProperties :: "string \<rightharpoonup> bool"
  ownPropertyNames :: "string list"
  ownPropertyDescriptor :: "string \<rightharpoonup> descriptor"
  readonly_metadata :: "string \<Rightarrow> bool"

text \<open>
  An entity class: its own level, the levels of its ancestors (nearest first, up to but
  not including \<open>Function.prototype\<close>), the mapping layer's metadata if the class is
  a declared entity, the \<open>design:type\<close> of its properties, and the result of the
  type function of a property that has one.
\<close>

record entity_class =
  class_name :: string
  own_level :: class_level
  ancestors :: "class_level list"
  orm_meta :: "entity_meta option"
  design_type :: "string \<rightharpoonup> js_type"
  type_function :: "string \<rightharpoonup> js_type"

section \<open>Data transfer objects\<close>

datatype validator =
    IsString
  | IsInt
  | IsNumber
  | IsBoolean
  | IsDate
  | IsEnum "jsval list"
  | IsArray
  | IsOptional
  | IsNotEmpty

text \<open>A validation rule on a property; \<open>each\<close> is the option of the same name.\<close>

record validation_metadata =
  propertyName :: string
  rule :: validator
  each :: bool

record api_property =
  api_type :: "js_type option"
  isArray :: bool
  enum_values :: "jsval list option"
  enumName :: "string option"
  required :: bool

text \<open>
  A DTO class is described by the metadata registered for it: its validation rules,
  its documented properties, and its type transformations.
\<close>

record dto =
  dto_name :: string
  validations :: "validation_metadata list"
  api_properties :: "(string \<times> api_property) list"
  type_transforms :: "(string \<times> js_type) list"

definition dto_fields :: "dto \<Rightarrow> string set" where
  "dto_fields d = propertyName ` set (validations d) \<union> fst ` set (api_properties d)"

section \<open>Requests and CRUD options\<close>

record request =
  params :: "string \<rightharpoonup> string"
  fetched_entity :: "entity option"

datatype sort_order = ASC | DESC

record sort_entry =
  sort_field :: string
  sort_dir :: sort_order

text \<open>\<open>operations.query\<close>: absent, \<open>false\<close>, or an object with optional members.\<close>

datatype query_operation =
    QueryOff
  | QueryCfg (pagination: "bool option") (sort: "sort_entry list option")

record crud_options =
  tag :: "string option"
  entity :: entity_class
  createDto :: "dto option"
  updateDto :: "dto option"
  filter_fn :: "(request \<Rightarrow> filter_query returned) option"
  operations_query :: "query_operation option"

text \<open>\<open>options?.filter?.(req, params)\<close>\<close>

definition call_filter :: "crud_options \<Rightarrow> request \<Rightarrow> filter_query returned" where
  "call_filter options req = (case filter_fn options of None \<Rightarrow> Nothing | Some f \<Rightarrow> f req)"

section \<open>The repository and the base service\<close>

text \<open>
  The entity repository of the mapping layer is a collaborator of this code and not part
  of it. It is modelled by its contract over a table of rows: a query selects the rows
  that satisfy the filter, orders them as the repository does for the given \<open>orderBy\<close>,
  and cuts the page out. Every call is logged, so that a statement can speak about
  which calls a handler issues.

  The contract covers an offset that is a natural number and a limit that is a positive
  natural number, both given as numbers. What the repository returns of the selected
  rows for any other offset or limit is the parameter \<open>beyond\<close>. The filter argument is read by
  \<open>read_filter\<close>: a filter object is what it is; a pending promise handed over in its
  place is taken for the filter object \<open>pending\<close>, which cannot depend on the value
  the promise resolves to later.
\<close>

type_synonym order_by = "(string \<times> sort_order) list"

datatype call =
    FindAndCount "filter_query returned" jsnum query_param "order_by option"
  | Find filter_query "order_by option"
  | FindOne filter_query
  | NativeDelete filter_query
  | Flush

datatype event = Deleted "entity option" | Updated entity

record db =
  rows :: "entity list"
  ordering :: "order_by option \<Rightarrow> entity list \<Rightarrow> entity list"
  beyond :: "jsnum \<Rightarrow> query_param \<Rightarrow> entity list \<Rightarrow> entity list"
  pending :: filter_query
  calls :: "call list"
  events :: "event list"

definition logged :: "call \<Rightarrow> db \<Rightarrow> db" where
  "logged c s = s\<lparr>calls := calls s @ [c]\<rparr>"

definition emit :: "event \<Rightarrow> db \<Rightarrow> db" where
  "emit ev s = s\<lparr>events := events s @ [ev]\<rparr>"

definition selected :: "db \<Rightarrow> filter_query \<Rightarrow> order_by option \<Rightarrow> entity list" where
  "selected s w ob = ordering s ob (filter (matches w) (rows s))"

definition read_filter :: "db \<Rightarrow> filter_query returned \<Rightarrow> filter_query" where
  "read_filter s handed =
     (case handed of Nothing \<Rightarrow> [] | Plain w \<Rightarrow> w | Promise w \<Rightarrow> pending s)"

definition page_of :: "db \<Rightarrow> jsnum \<Rightarrow> query_param \<Rightarrow> entity list \<Rightarrow> entity list" where
  "page_of s ofs lmt xs =
     (case (as_nat ofs, param_as_nat lmt) of
        (Some k, Some n) \<Rightarrow> if 0 < n then take n (drop k xs) else beyond s ofs lmt xs
      | _ \<Rightarrow> beyond s ofs lmt xs)"

definition repo_findAndCount ::
  "filter_query returned \<Rightarrow> jsnum \<Rightarrow> query_param \<Rightarrow> order_by option \<Rightarrow> db
     \<Rightarrow> (entity list \<times> nat) \<times> db" where
  "repo_findAndCount handed ofs lmt ob s =
     (let w = read_filter s handed
      in ((page_of s ofs lmt (selected s w ob), length (filter (matches w) (rows s))),
          logged (FindAndCount handed ofs lmt ob) s))"

definition repo_find :: "filter_query \<Rightarrow> order_by option \<Rightarrow> db \<Rightarrow> entity list \<times> db" where
  "repo_find w ob s = (selected s w ob, logged (Find w ob) s)"

definition repo_findOne :: "filter_query \<Rightarrow> db \<Rightarrow> entity option \<times> db" where
  "repo_findOne w s = (find (matches w) (rows s), logged (FindOne w) s)"

definition repo_nativeDelete :: "filter_query \<Rightarrow> db \<Rightarrow> nat \<times> db" where
  "repo_nativeDelete w s =
     (length (filter (matches w) (rows s)),
      logged (NativeDelete w) (s\<lparr>rows := filter (\<lambda>e. \<not> matches w e) (rows s)\<rparr>))"

text \<open>\<open>BaseService.query\<close>, \<open>findAll\<close> and \<open>findOne\<close> hand over to the repository.\<close>

definition service_query ::
  "filter_query returned \<Rightarrow> jsnum \<Rightarrow> query_param \<Rightarrow> order_by option \<Rightarrow> db
     \<Rightarrow> (entity list \<times> nat) \<times> db" where
  "service_query handed ofs lmt ob s = repo_findAndCount handed ofs lmt ob s"

definition service_findAll :: "filter_query \<Rightarrow> order_by option \<Rightarrow> db \<Rightarrow> entity list \<times> db" where
  "service_findAll w ob s = repo_find w ob s"

definition service_findOne :: "filter_query \<Rightarrow> db \<Rightarrow> entity option \<times> db" where
  "service_findOne w s = repo_findOne w s"

text \<open>\<open>Object.assign(entity, data)\<close> on an entity.\<close>

definition assign_entity :: "entity \<Rightarrow> (string \<times> jsval) list \<Rightarrow> entity" where
  "assign_entity e source = fold (\<lambda>(k, v) acc. acc(k \<mapsto> v)) source e"

text \<open>
  Flushing writes a changed managed entity back: the row that \<open>findOne\<close> returned,
  which is the first one that matches, is replaced.
\<close>

fun replace_first :: "('a \<Rightarrow> bool) \<Rightarrow> 'a \<Rightarrow> 'a list \<Rightarrow> 'a list" where
  "replace_first P y [] = []"
| "replace_first P y (x # xs) = (if P x then y # xs else x # replace_first P y xs)"

datatype error =
    NotFound
  | BadRequest string
  | BSONError
  | TypeError

text \<open>
  \<open>BaseService.delete\<close>: looks the entity up, emits \<open>deleted\<close> with what it found, and
  deletes whatever matches.
\<close>

definition service_delete :: "filter_query \<Rightarrow> db \<Rightarrow> nat \<times> db" where
  "service_delete w s =
     (let (found, s1) = service_findOne w s;
          s2 = emit (Deleted found) s1
      in repo_nativeDelete w s2)"

text \<open>
  \<open>BaseService.update\<close>: \<open>Object.assign\<close> on a missing entity throws a
  \<open>TypeError\<close>; otherwise the entity is changed, flushed and announced.
\<close>

definition service_update ::
  "filter_query \<Rightarrow> (string \<times> jsval) list \<Rightarrow> db \<Rightarrow> (error + entity) \<times> db" where
  "service_update w body s =
     (let (found, s1) = service_findOne w s
      in case found of
           None \<Rightarrow> (Inl TypeError, s1)
         | Some e \<Rightarrow>
             (let e' = assign_entity e body;
                  s2 = logged Flush (s1\<lparr>rows := replace_first (matches w) e' (rows s1)\<rparr>);
                  s3 = emit (Updated e') s2
              in (Inr e', s3)))"

section \<open>The list handler\<close>

record pagination_dto =
  data :: "entity list"
  total :: nat
  page :: query_param
  limit :: query_param
  totalPages :: jsnum

datatype query_result = Paginated pagination_dto | Listing "entity list"

text \<open>
  \<open>options.operations?.query !== false ? options.operations?.query?.pagination !== false : false\<close>
\<close>

definition queryUsesPagination :: "crud_options \<Rightarrow> bool" where
  "queryUsesPagination options =
     (case operations_query options of
        None \<Rightarrow> True
      | Some QueryOff \<Rightarrow> False
      | Some (QueryCfg p _) \<Rightarrow> p \<noteq> Some False)"

text \<open>The \<open>orderBy\<close> object built from the configured sort entries.\<close>

definition query_orderBy :: "crud_options \<Rightarrow> order_by option" where
  "query_orderBy options =
     (case operations_query options of
        Some (QueryCfg _ (Some entries)) \<Rightarrow>
          Some (fold (\<lambda>s ob. obj_set (sort_field s) (sort_dir s) ob) entries [])
      | _ \<Rightarrow> None)"

text \<open>
  \<open>if (!x) x = d\<close>. The fields \<open>page\<close> and \<open>limit\<close> of the answer hold what the
  handler's variables hold after it: the parameter as delivered, or the default.
\<close>

definition or_default :: "query_param \<Rightarrow> nat \<Rightarrow> query_param" where
  "or_default x d = (if falsy x then QNum (js_number d) else x)"

text \<open>The filter the list handler queries with: \<open>(await options?.filter?.(req, params)) ?? {}\<close>\<close>

definition awaited_filter :: "crud_options \<Rightarrow> request \<Rightarrow> filter_query" where
  "awaited_filter options req =
     (case await (call_filter options req) of None \<Rightarrow> [] | Some f \<Rightarrow> f)"

text \<open>
  The list handler. The offset \<open>page * limit\<close> and the quotient \<open>total / limit\<close> are
  computed on the numbers the operands convert to; the limit reaches the repository
  as the handler holds it.
\<close>

definition query_handler ::
  "runtime \<Rightarrow> crud_options \<Rightarrow> request \<Rightarrow> query_param \<Rightarrow> query_param \<Rightarrow> db
     \<Rightarrow> query_result \<times> db" where
  "query_handler rt options req page_param limit_param s =
     (let w = awaited_filter options req;
          orderBy = query_orderBy options
      in if queryUsesPagination options then
           (let lmt = or_default limit_param 100;
                pg = or_default page_param 0;
                ((items, count), s') =
                   service_query (Plain w) (js_times (to_num rt pg) (to_num rt lmt)) lmt
                     orderBy s
            in (Paginated \<lparr>data = items, total = count, page = pg, limit = lmt,
                           totalPages = js_ceil (js_divide (js_number count) (to_num rt lmt))\<rparr>,
                s'))
         else
           (let (items, s') = service_findAll w orderBy s
            in (Listing items, s')))"

section \<open>The export handler\<close>

definition batchSize :: nat where
  "batchSize = 500"

text \<open>
  The generator \<open>generateData\<close> of the export handler, run to its end. \<open>aborted p\<close> is
  the value of the flag of the same name when the loop tests it with \<open>page = p\<close>; the
  request's \<open>close\<close> event sets the flag. The result is the list of the items yielded
  and the state of the data layer. \<open>handed\<close> is the handler's \<open>filter\<close> as it is
  handed to the service.
\<close>

function generateData ::
  "(entity \<Rightarrow> 'p) \<Rightarrow> (nat \<Rightarrow> bool) \<Rightarrow> filter_query returned \<Rightarrow> nat \<Rightarrow> db \<Rightarrow> 'p list \<times> db" where
  "generateData instanceToPlain aborted handed pg s =
     (if aborted pg then ([], s)
      else
        (let r = service_query handed (js_number (pg * batchSize))
                   (QNum (js_number batchSize)) None s;
             batch = fst (fst r);
             s1 = snd r
         in if length batch = 0 then ([], s1)
            else if length batch < batchSize then (map instanceToPlain batch, s1)
            else (let r2 = generateData instanceToPlain aborted handed (pg + 1) s1
                  in (map instanceToPlain batch @ fst r2, snd r2))))"
  by pat_completeness auto
termination
proof -
  have nn: "\<And>k. as_nat (js_number k) = Some k"
    by (simp add: js_number_def)
  show ?thesis
    apply (relation "measure (\<lambda>(f, a, handed, pg, s).
             length (selected s (read_filter s handed) None) - pg * batchSize)")
     apply simp
    apply (auto simp: service_query_def repo_findAndCount_def selected_def logged_def
        batchSize_def read_filter_def page_of_def nn Let_def split: returned.splits)
    done
qed

declare generateData.simps [simp del]

text \<open>
  \<open>generateJson\<close>: the opening bracket, the items as \<open>JSON.stringify\<close> renders them with
  a comma before each but the first, and the closing bracket.
\<close>

fun json_items :: "('p \<Rightarrow> string) \<Rightarrow> bool \<Rightarrow> 'p list \<Rightarrow> string list" where
  "json_items stringify first [] = []"
| "json_items stringify first (x # xs) =
     (if first then [] else ['','']) @ [stringify x] @ json_items stringify False xs"

definition generateJson :: "('p \<Rightarrow> string) \<Rightarrow> 'p list \<Rightarrow> string list" where
  "generateJson stringify yielded = [''[''] @ json_items stringify True yielded @ ['']'']"

text \<open>
  The CSV transform is a collaborator, a stream of the runtime. Built as
  \<open>new CsvTransform(transformOpts)\<close> it has no stream options and is not in object
  mode, and a stream that is not in object mode refuses a chunk that is neither text nor
  bytes with a \<open>TypeError\<close>. \<open>render\<close> is what the transform writes for the objects
  it takes.
\<close>

definition CsvTransform :: "bool \<Rightarrow> ('p list \<Rightarrow> string list) \<Rightarrow> 'p list \<Rightarrow> error + string list" where
  "CsvTransform objectMode render written =
     (if objectMode \<or> written = [] then Inr (render written) else Inl TypeError)"

text \<open>
  The request as the export handler uses it, beside the filter function: the
  \<open>accept\<close> header, and for each test of the \<open>aborted\<close> flag whether the \<open>close\<close>
  event has fired before it.
\<close>

record express_request =
  accept :: "string option"
  close_fired :: "nat \<Rightarrow> bool"

record export_response =
  content_type :: string
  content_disposition :: "string option"
  sent :: "error + string list"

text \<open>
  \<open>options?.filter?.(nestReq, params) ?? {}\<close>, not awaited: a promise is not nullish and
  is handed to the service as it is.
\<close>

definition export_filter :: "crud_options \<Rightarrow> request \<Rightarrow> filter_query returned" where
  "export_filter options nestReq =
     (case call_filter options nestReq of
        Nothing \<Rightarrow> Plain []
      | Plain w \<Rightarrow> Plain w
      | Promise w \<Rightarrow> Promise w)"

text \<open>
  The export handler: what it writes as the response, and the state of the data
  layer when the generator has run to its end.
\<close>

definition export_handler ::
  "(entity \<Rightarrow> 'p) \<Rightarrow> ('p \<Rightarrow> string) \<Rightarrow> ('p list \<Rightarrow> string list) \<Rightarrow> crud_options
     \<Rightarrow> request \<Rightarrow> express_request \<Rightarrow> db \<Rightarrow> export_response \<times> db" where
  "export_handler instanceToPlain stringify render options nestReq req s =
     (let handed = export_filter options nestReq;
          isCsv = (accept req = Some ''text/csv'');
          (yielded, s') = generateData instanceToPlain (close_fired req) handed 0 s
      in if isCsv then
           (\<lparr>content_type = ''text/csv'',
             content_disposition = Some (''attachment; filename=''
               @ (case tag options of None \<Rightarrow> ''export'' | Some t \<Rightarrow> t) @ ''.csv''),
             sent = CsvTransform False render yielded\<rparr>, s')
         else
           (\<lparr>content_type = ''application/json'', content_disposition = None,
             sent = Inr (generateJson stringify yielded)\<rparr>, s'))"

section \<open>The handlers that take an id\<close>

text \<open>
  What \<open>Crud\<close> works out once from the metadata: the name of the primary key and the
  type its values are parsed to.
\<close>

definition is_objectid_type :: "js_type option \<Rightarrow> bool" where
  "is_objectid_type t = (t = Some (TName ''ObjectId'') \<or> t = Some TObjectId \<or> t = Some TMongoObjectId)"

definition is_number_type :: "js_type option \<Rightarrow> bool" where
  "is_number_type t = (t = Some (TName ''number'') \<or> t = Some TNumber)"

definition crud_primaryKey :: "crud_options \<Rightarrow> string" where
  "crud_primaryKey options =
     (case orm_meta (entity options) of
        None \<Rightarrow> ''id''
      | Some meta \<Rightarrow> (case primaryKeys meta of [] \<Rightarrow> ''id'' | k # _ \<Rightarrow> k))"

definition crud_primaryKeyType :: "crud_options \<Rightarrow> js_type" where
  "crud_primaryKeyType options =
     (case orm_meta (entity options) of
        None \<Rightarrow> TString
      | Some meta \<Rightarrow>
          (case primaryKeys meta of
             [] \<Rightarrow> TString
           | k # _ \<Rightarrow>
               (case map_of (properties meta) k of
                  None \<Rightarrow> TString
                | Some prop \<Rightarrow>
                    if is_objectid_type (ptype prop) then TObjectId
                    else if is_number_type (ptype prop) then TNumber
                    else (case design_type (entity options) k of
                            None \<Rightarrow> TString
                          | Some t \<Rightarrow> t))))"

text \<open>\<open>parseId\<close>: the driver's constructor throws on text that is no ObjectId.\<close>

definition parseId :: "runtime \<Rightarrow> crud_options \<Rightarrow> string \<Rightarrow> error + jsval" where
  "parseId rt options ident =
     (let primaryKeyType = crud_primaryKeyType options
      in if primaryKeyType = TObjectId \<or> primaryKeyType = TMongoObjectId then
           (case newObjectId rt ident of None \<Rightarrow> Inl BSONError | Some h \<Rightarrow> Inr (VOid h))
         else if primaryKeyType = TNumber then Inr (VNum (toNumber rt ident))
         else Inr (VStr ident))"

text \<open>
  The lookup that \<open>read\<close>, \<open>delete\<close>, \<open>replace\<close> and \<open>update\<close> start with:
  \<open>findOne({ ...filter ?? {}, [primaryKey]: parseId(id) })\<close>, where \<open>filter\<close> is the
  result of the filter function as returned, not awaited.
\<close>

definition lookup_where :: "crud_options \<Rightarrow> request \<Rightarrow> jsval \<Rightarrow> filter_query" where
  "lookup_where options req parsed =
     obj_set (crud_primaryKey options) (Eq parsed) (spread_returned (call_filter options req))"

definition lookup :: "runtime \<Rightarrow> crud_options \<Rightarrow> request \<Rightarrow> string \<Rightarrow> db \<Rightarrow> (error + entity) \<times> db" where
  "lookup rt options req ident s =
     (case parseId rt options ident of
        Inl err \<Rightarrow> (Inl err, s)
      | Inr parsed \<Rightarrow>
          (let (result, s1) = service_findOne (lookup_where options req parsed) s
           in case result of
                None \<Rightarrow> (Inl NotFound, s1)
              | Some e \<Rightarrow> (Inr e, s1)))"

text \<open>\<open>{ [primaryKey]: result[primaryKey] }\<close>\<close>

definition by_primaryKey :: "crud_options \<Rightarrow> entity \<Rightarrow> filter_query" where
  "by_primaryKey options e =
     [(crud_primaryKey options, Eq (prop_of e (crud_primaryKey options)))]"

definition read_handler ::
  "runtime \<Rightarrow> crud_options \<Rightarrow> request \<Rightarrow> string \<Rightarrow> db \<Rightarrow> (error + entity) \<times> db" where
  "read_handler rt options req ident s = lookup rt options req ident s"

definition delete_handler ::
  "runtime \<Rightarrow> crud_options \<Rightarrow> request \<Rightarrow> string \<Rightarrow> db \<Rightarrow> (error + unit) \<times> db" where
  "delete_handler rt options req ident s =
     (case lookup rt options req ident s of
        (Inl err, s1) \<Rightarrow> (Inl err, s1)
      | (Inr result, s1) \<Rightarrow>
          (let (n, s2) = service_delete (by_primaryKey options result) s1
           in (Inr (), s2)))"

text \<open>\<open>replace\<close> (PATCH) hands the body over as it is.\<close>

definition replace_handler ::
  "runtime \<Rightarrow> crud_options \<Rightarrow> (string \<times> jsval) list \<Rightarrow> request \<Rightarrow> string \<Rightarrow> db
     \<Rightarrow> (error + entity) \<times> db" where
  "replace_handler rt options body req ident s =
     (case lookup rt options req ident s of
        (Inl err, s1) \<Rightarrow> (Inl err, s1)
      | (Inr result, s1) \<Rightarrow> service_update (by_primaryKey options result) body s1)"

text \<open>
  \<open>update\<close> (PUT) copies the body into a fresh object and deletes every key whose
  value is \<open>undefined\<close>.
\<close>

definition toUpdateBody :: "(string \<times> jsval) list \<Rightarrow> (string \<times> jsval) list" where
  "toUpdateBody body = filter (\<lambda>(k, v). v \<noteq> VUndefined) (obj_assign [] body)"

definition update_handler ::
  "runtime \<Rightarrow> crud_options \<Rightarrow> (string \<times> jsval) list \<Rightarrow> request \<Rightarrow> string \<Rightarrow> db
     \<Rightarrow> (error + entity) \<times> db" where
  "update_handler rt options body req ident s =
     (case lookup rt options req ident s of
        (Inl err, s1) \<Rightarrow> (Inl err, s1)
      | (Inr result, s1) \<Rightarrow> service_update (by_primaryKey options result) (toUpdateBody body) s1)"

section \<open>The entity-fetch interceptor\<close>

text \<open>
  \<open>CrudEntityInterceptor.intercept\<close>. \<open>crud\<close> is the options metadata of the
  controller class, \<open>metadata\<close> what the entity manager knows about the entity. The
  result is the request as the downstream handler receives it, or the exception.
\<close>

definition parse_param :: "runtime \<Rightarrow> bool \<Rightarrow> bool \<Rightarrow> string \<Rightarrow> error + jsval" where
  "parse_param rt as_objectid as_number idValue =
     (if as_objectid then
        (case newObjectId rt idValue of
           None \<Rightarrow> Inl (BadRequest ''Invalid ObjectId'')
         | Some h \<Rightarrow> Inr (VOid h))
      else if as_number then
        (let parsedId = VNum (toNumber rt idValue)
         in if isNaN parsedId then Inl (BadRequest ''Invalid ID'') else Inr parsedId)
      else Inr (VStr idValue))"

definition intercept_primaryKey :: "entity_meta option \<Rightarrow> string" where
  "intercept_primaryKey metadata =
     (case metadata of
        None \<Rightarrow> ''id''
      | Some m \<Rightarrow> (case primaryKeys m of [] \<Rightarrow> ''id'' | k # _ \<Rightarrow> if k = [] then ''id'' else k))"

definition intercept_parse ::
  "runtime \<Rightarrow> crud_options \<Rightarrow> entity_meta option \<Rightarrow> string \<Rightarrow> error + jsval" where
  "intercept_parse rt options metadata idValue =
     (let primaryKey = intercept_primaryKey metadata;
          prop = (case metadata of None \<Rightarrow> None | Some m \<Rightarrow> map_of (properties m) primaryKey)
      in case prop of
           Some p \<Rightarrow>
             parse_param rt (is_objectid_type (ptype p)) (is_number_type (ptype p)) idValue
         | None \<Rightarrow>
             (let primaryKeyType = design_type (entity options) primaryKey
              in parse_param rt
                   (primaryKeyType = Some TObjectId \<or> primaryKeyType = Some TMongoObjectId)
                   (primaryKeyType = Some TNumber) idValue))"

text \<open>\<open>await options.filter(req, params) || {}\<close>, or \<open>{}\<close> without a filter function.\<close>

definition intercept_filter :: "crud_options \<Rightarrow> request \<Rightarrow> filter_query" where
  "intercept_filter options req =
     (case await (call_filter options req) of None \<Rightarrow> [] | Some f \<Rightarrow> f)"

definition intercept ::
  "runtime \<Rightarrow> crud_options option \<Rightarrow> entity_meta option \<Rightarrow> request \<Rightarrow> db
     \<Rightarrow> (error + request) \<times> db" where
  "intercept rt crud metadata req s =
     (case crud of
        None \<Rightarrow> (Inr req, s)
      | Some options \<Rightarrow>
          (let primaryKey = intercept_primaryKey metadata
           in case params req primaryKey of
                None \<Rightarrow> (Inr req, s)
              | Some idValue \<Rightarrow>
                  if idValue = [] then (Inr req, s)
                  else
                    (case intercept_parse rt options metadata idValue of
                       Inl err \<Rightarrow> (Inl err, s)
                     | Inr parsedId \<Rightarrow>
                         (let w = obj_set primaryKey (Eq parsedId) (intercept_filter options req);
                              (found, s1) = repo_findOne w s
                          in case found of
                               None \<Rightarrow> (Inl NotFound, s1)
                             | Some e \<Rightarrow> (Inr (req\<lparr>fetched_entity := Some e\<rparr>), s1)))))"

section \<open>The DTO factory\<close>

definition levels :: "entity_class \<Rightarrow> class_level list" where
  "levels c = own_level c # ancestors c"

text \<open>\<open>prop.startsWith(':') ? prop.substring(1) : prop\<close>\<close>

definition strip_colon :: "string \<Rightarrow> string" where
  "strip_colon prop = (if startsWith prop '':'' then drop 1 prop else prop)"

text \<open>What the walk up the inheritance chain collects.\<close>

record walk =
  transformerStrategy :: strategy
  exposedTransformerProps :: "string option set"
  excludedTransformerProps :: "string option set"
  excluded :: "string set"

definition swagger_step :: "class_level \<Rightarrow> string \<Rightarrow> string set \<Rightarrow> string set" where
  "swagger_step lvl prop ex =
     (let propertyKey = strip_colon prop;
          ex1 = (if apiModelProperties lvl propertyKey = Some True then insert propertyKey ex else ex)
      in case ownPropertyDescriptor lvl propertyKey of
           None \<Rightarrow> ex1
         | Some d \<Rightarrow> if \<not> writable d then insert propertyKey ex1 else ex1)"

definition prototype_step :: "class_level \<Rightarrow> string \<Rightarrow> string set \<Rightarrow> string set" where
  "prototype_step lvl prop ex =
     (let ex1 = (case ownPropertyDescriptor lvl prop of
                   None \<Rightarrow> ex
                 | Some d \<Rightarrow> if has_get d \<or> \<not> writable d then insert prop ex else ex)
      in if readonly_metadata lvl prop then insert prop ex1 else ex1)"

definition transformer_step :: "transformer_meta \<Rightarrow> string option set \<Rightarrow> string option set" where
  "transformer_step m acc = (if \<not> tm_toPlainOnly m then insert (tm_propertyName m) acc else acc)"

definition walk_level :: "class_level \<Rightarrow> walk \<Rightarrow> walk" where
  "walk_level lvl st =
     \<lparr>transformerStrategy =
        (if getStrategy lvl \<noteq> StrategyNone then getStrategy lvl else transformerStrategy st),
      exposedTransformerProps =
        fold transformer_step (getExposedMetadatas lvl) (exposedTransformerProps st),
      excludedTransformerProps =
        fold transformer_step (getExcludedMetadatas lvl) (excludedTransformerProps st),
      excluded =
        fold (prototype_step lvl) (ownPropertyNames lvl)
          (fold (swagger_step lvl) (apiModelPropertiesArray lvl) (excluded st))\<rparr>"

definition walk_chain :: "entity_class \<Rightarrow> walk" where
  "walk_chain c =
     fold walk_level (levels c)
       \<lparr>transformerStrategy = ExcludeAll, exposedTransformerProps = {},
        excludedTransformerProps = {}, excluded = {}\<rparr>"

text \<open>The part of the loop over the mapping metadata that decides about one property.\<close>

definition property_excluded :: "entity_class \<Rightarrow> walk \<Rightarrow> entity_property \<Rightarrow> bool" where
  "property_excluded c st prop =
     (primary prop \<or> persist prop = Some False \<or> autoincrement prop \<or> onCreate prop
      \<or> onUpdate prop \<or> version prop
      \<or> readonly_metadata (own_level c) (name prop)
      \<or> (if transformerStrategy st = ExcludeAll
          then Some (name prop) \<notin> exposedTransformerProps st
          else Some (name prop) \<in> excludedTransformerProps st))"

definition meta_values :: "entity_class \<Rightarrow> entity_property list" where
  "meta_values c = (case orm_meta c of None \<Rightarrow> [] | Some meta \<Rightarrow> map snd (properties meta))"

definition excluded_names :: "entity_class \<Rightarrow> string set" where
  "excluded_names c =
     (let st = walk_chain c
      in fold (\<lambda>prop ex. if property_excluded c st prop then insert (name prop) ex else ex)
           (meta_values c) (excluded st))"

text \<open>The type a property is validated as, and whether it is an array.\<close>

definition prop_isArray :: "entity_class \<Rightarrow> entity_property \<Rightarrow> bool" where
  "prop_isArray c prop = (design_type c (name prop) = Some TArray \<or> array prop)"

definition typeToCheck :: "entity_class \<Rightarrow> entity_property \<Rightarrow> js_type option" where
  "typeToCheck c prop =
     (let designType = (case type_function c (name prop) of
                          Some innerType \<Rightarrow> Some innerType
                        | None \<Rightarrow> design_type c (name prop));
          t = (if prop_isArray c prop \<and> designType = Some TArray then None else designType)
      in if t = None then
           (if ptype prop = Some (TName ''string'') then Some TString
            else if ptype prop = Some (TName ''number'') then Some TNumber
            else if ptype prop = Some (TName ''boolean'') then Some TBoolean
            else if ptype prop = Some (TName ''Date'') then Some TDate
            else None)
         else t)"

definition prop_isInt :: "entity_property \<Rightarrow> bool" where
  "prop_isInt prop =
     ((case columnTypes prop of
         [] \<Rightarrow> False
       | ct # _ \<Rightarrow> ct \<in> set [''integer'', ''int'', ''smallint'', ''tinyint'', ''mediumint'', ''bigint''])
      \<or> (ptype prop = Some (TName ''number'') \<and> integer prop))"

definition type_rules :: "entity_class \<Rightarrow> entity_property \<Rightarrow> validator list" where
  "type_rules c prop =
     (let t = typeToCheck c prop
      in if t = Some TString then [IsString]
         else if t = Some TNumber then (if prop_isInt prop then [IsInt] else [IsNumber])
         else if t = Some TBoolean then [IsBoolean]
         else if t = Some TDate then [IsDate]
         else [])"

definition enum_items :: "entity_property \<Rightarrow> jsval list option" where
  "enum_items prop = (if enum prop then items prop else None)"

definition prop_validations :: "entity_class \<Rightarrow> entity_property \<Rightarrow> validation_metadata list" where
  "prop_validations c prop =
     (let n = name prop; e = prop_isArray c prop
      in map (\<lambda>r. \<lparr>propertyName = n, rule = r, each = e\<rparr>) (type_rules c prop)
         @ (case enum_items prop of
              None \<Rightarrow> []
            | Some its \<Rightarrow> [\<lparr>propertyName = n, rule = IsEnum its, each = e\<rparr>])
         @ (if array prop \<or> e then [\<lparr>propertyName = n, rule = IsArray, each = False\<rparr>] else [])
         @ [\<lparr>propertyName = n, rule = (if nullable prop then IsOptional else IsNotEmpty), each = e\<rparr>])"

definition prop_enumName :: "entity_property \<Rightarrow> string option" where
  "prop_enumName prop =
     (case (enum_items prop, ptype prop) of
        (Some its, Some (TName t)) \<Rightarrow>
          if toLowerCase t \<in> set [''string'', ''number'', ''boolean'', ''date'', ''array'', ''object'']
          then None else Some t
      | _ \<Rightarrow> None)"

definition prop_api :: "entity_class \<Rightarrow> entity_property \<Rightarrow> string \<times> api_property" where
  "prop_api c prop =
     (name prop,
      \<lparr>api_type = typeToCheck c prop, isArray = prop_isArray c prop,
       enum_values = enum_items prop, enumName = prop_enumName prop,
       required = (\<not> nullable prop)\<rparr>)"

definition prop_transforms :: "entity_class \<Rightarrow> entity_property \<Rightarrow> (string \<times> js_type) list" where
  "prop_transforms c prop = (if typeToCheck c prop = Some TDate then [(name prop, TDate)] else [])"

definition DefaultCreateDto :: "entity_class \<Rightarrow> string set \<Rightarrow> dto" where
  "DefaultCreateDto c ex =
     (let props = filter (\<lambda>prop. name prop \<notin> ex) (meta_values c)
      in \<lparr>dto_name = class_name c @ ''CreateDto'',
          validations = concat (map (prop_validations c) props),
          api_properties = map (prop_api c) props,
          type_transforms = concat (map (prop_transforms c) props)\<rparr>)"

text \<open>
  \<open>PartialType\<close> is the documentation layer's mapped type, a collaborator of this
  code. By its contract the class it returns inherits the validation rules and type
  transformations of the base class, marks every property of the base class optional,
  and documents the documented properties of the base class as not required.
\<close>

definition optional_rule :: "string \<Rightarrow> validation_metadata" where
  "optional_rule k = \<lparr>propertyName = k, rule = IsOptional, each = False\<rparr>"

definition PartialType :: "dto \<Rightarrow> dto" where
  "PartialType base =
     \<lparr>dto_name = ''PartialTypeClass'',
      validations = validations base
        @ map optional_rule
            (filter (\<lambda>k. k \<notin> fst ` set (api_properties base))
               (remdups (map propertyName (validations base))))
        @ map (\<lambda>(k, a). optional_rule k) (api_properties base),
      api_properties = map (\<lambda>(k, a). (k, a\<lparr>required := False\<rparr>)) (api_properties base),
      type_transforms = type_transforms base\<rparr>"

text \<open>
  The validation library keeps each rule under a type: \<open>IsOptional\<close> is a conditional
  validation, every other rule here a custom validation. The rules it reports for a
  class are the class's own rules followed by those inherited ones that no own rule
  shadows, and an own rule shadows the inherited rules on the same property of the
  same type.
\<close>

datatype validation_type = CustomValidation | ConditionalValidation

fun rule_type :: "validator \<Rightarrow> validation_type" where
  "rule_type IsOptional = ConditionalValidation"
| "rule_type r = CustomValidation"

definition shadowed :: "validation_metadata list \<Rightarrow> validation_metadata \<Rightarrow> bool" where
  "shadowed own m =
     list_ex (\<lambda>m'. propertyName m' = propertyName m \<and> rule_type (rule m') = rule_type (rule m)) own"

definition getTargetValidationMetadatas ::
  "validation_metadata list \<Rightarrow> validation_metadata list \<Rightarrow> validation_metadata list" where
  "getTargetValidationMetadatas own inherited = own @ filter (\<lambda>m. \<not> shadowed own m) inherited"

text \<open>
  \<open>DefaultUpdateDto\<close> extends the partial type of the create DTO and inherits its
  rules. Every validation rule of the create DTO that names a property is then
  registered again for the new class as \<open>new ValidationMetadata({ ...meta, target })\<close>,
  followed by \<open>IsOptional\<close> on that property. The constructor takes \<open>each\<close> from
  the \<open>validationOptions\<close> of its argument, which the spread of a rule does not have,
  so the rule registered again has \<open>each\<close> unset. The \<open>validations\<close> of the DTO are
  the rules the library reports for it.
\<close>

definition reregistered :: "validation_metadata \<Rightarrow> validation_metadata list" where
  "reregistered m =
     (if propertyName m \<noteq> [] then [m\<lparr>each := False\<rparr>, optional_rule (propertyName m)] else [])"

definition DefaultUpdateDto :: "entity_class \<Rightarrow> dto \<Rightarrow> dto" where
  "DefaultUpdateDto c created =
     (let base = PartialType created;
          own = concat (map reregistered (validations created))
      in base\<lparr>dto_name := class_name c @ ''UpdateDto'',
               validations := getTargetValidationMetadatas own (validations base)\<rparr>)"

definition createDtos :: "crud_options \<Rightarrow> crud_options" where
  "createDtos options =
     (if createDto options = None \<or> updateDto options = None then
        (let ex = excluded_names (entity options);
             options1 = (if createDto options = None
                         then options\<lparr>createDto := Some (DefaultCreateDto (entity options) ex)\<rparr>
                         else options)
         in case (createDto options1, updateDto options1) of
              (Some created, None) \<Rightarrow>
                options1\<lparr>updateDto := Some (DefaultUpdateDto (entity options) created)\<rparr>
            | _ \<Rightarrow> options1)
      else options)"

subsection \<open>The exclusion rules, stated on the metadata\<close>

text \<open>
  The rules that decide about a field, as the specification words them: a field is
  auto-generated, a field is marked readonly somewhere in the inheritance chain, a
  field is exposed by the serialisation rules.
\<close>

definition auto_generated :: "entity_property \<Rightarrow> bool" where
  "auto_generated p =
     (autoincrement p \<or> onCreate p \<or> onUpdate p \<or> version p \<or> persist p = Some False)"

definition documented :: "class_level \<Rightarrow> string \<Rightarrow> bool" where
  "documented lvl n = (n \<in> strip_colon ` set (apiModelPropertiesArray lvl))"

definition level_readonly :: "class_level \<Rightarrow> string \<Rightarrow> bool" where
  "level_readonly lvl n =
     ((documented lvl n
         \<and> (apiModelProperties lvl n = Some True
            \<or> (\<exists>d. ownPropertyDescriptor lvl n = Some d \<and> \<not> writable d)))
      \<or> (n \<in> set (ownPropertyNames lvl)
         \<and> (readonly_metadata lvl n
            \<or> (\<exists>d. ownPropertyDescriptor lvl n = Some d \<and> (has_get d \<or> \<not> writable d)))))"

definition marked_readonly :: "entity_class \<Rightarrow> string \<Rightarrow> bool" where
  "marked_readonly c n =
     (readonly_metadata (own_level c) n
      \<or> (\<exists>lvl \<in> set (levels c).
            (documented lvl n
               \<and> (apiModelProperties lvl n = Some True
                  \<or> (\<exists>d. ownPropertyDescriptor lvl n = Some d \<and> \<not> writable d)))
          \<or> (n \<in> set (ownPropertyNames lvl)
               \<and> (readonly_metadata lvl n
                  \<or> (\<exists>d. ownPropertyDescriptor lvl n = Some d \<and> (has_get d \<or> \<not> writable d))))))"

definition strategy_of :: "entity_class \<Rightarrow> strategy" where
  "strategy_of c =
     (case filter (\<lambda>l. getStrategy l \<noteq> StrategyNone) (levels c) of
        [] \<Rightarrow> ExcludeAll
      | l # ls \<Rightarrow> getStrategy (last (l # ls)))"

definition listed_in :: "(class_level \<Rightarrow> transformer_meta list) \<Rightarrow> entity_class \<Rightarrow> string \<Rightarrow> bool" where
  "listed_in metadatas c n =
     (\<exists>lvl \<in> set (levels c). \<exists>m \<in> set (metadatas lvl).
        tm_propertyName m = Some n \<and> \<not> tm_toPlainOnly m)"

definition exposed_field :: "entity_class \<Rightarrow> string \<Rightarrow> bool" where
  "exposed_field c n =
     (if strategy_of c = ExcludeAll then listed_in getExposedMetadatas c n
      else \<not> listed_in getExcludedMetadatas c n)"

section \<open>The query-filter translator\<close>

text \<open>
  A value in the \<open>where\<close> object that the translator builds: a plain value or an
  object of operators.
\<close>

datatype wval = WVal jsval | WObj "(string \<times> wval) list"

text \<open>An entry of the filter configuration: a boolean or a custom filter function.\<close>

datatype filter_config = Flag bool | Custom "string \<Rightarrow> (string \<times> wval) list"

definition exposedName_of :: "transformer_meta \<Rightarrow> string \<Rightarrow> string" where
  "exposedName_of m pn = (case tm_name m of None \<Rightarrow> pn | Some n \<Rightarrow> if n = [] then pn else n)"

definition toExposed :: "entity_class \<Rightarrow> (string \<times> string) list" where
  "toExposed c =
     fold (\<lambda>m acc. case tm_propertyName m of
                       None \<Rightarrow> acc
                     | Some pn \<Rightarrow> if pn = [] then acc else obj_set pn (exposedName_of m pn) acc)
       (getExposedMetadatas (own_level c)) []"

text \<open>\<open>toExposed.get(key) || key\<close>\<close>

definition exposedName :: "entity_class \<Rightarrow> string \<Rightarrow> string" where
  "exposedName c key =
     (case map_of (toExposed c) key of None \<Rightarrow> key | Some n \<Rightarrow> if n = [] then key else n)"

definition isString :: "js_type option \<Rightarrow> bool" where
  "isString t = (t = Some (TName ''string'') \<or> t = Some TString)"

definition isNumber :: "js_type option \<Rightarrow> bool" where
  "isNumber t = (t = Some (TName ''number'') \<or> t = Some TNumber)"

definition isDate :: "js_type option \<Rightarrow> bool" where
  "isDate t =
     (case t of
        Some (TName s) \<Rightarrow> s = ''date'' \<or> includes_str (toLowerCase s) ''date''
      | Some TDate \<Rightarrow> True
      | _ \<Rightarrow> False)"

definition isBoolean :: "js_type option \<Rightarrow> bool" where
  "isBoolean t = (t = Some (TName ''boolean'') \<or> t = Some TBoolean)"

text \<open>
  \<open>{ ...(where[key] || {}) }\<close>: an operator object is copied; a falsy value gives
  nothing; a text contributes its characters under their indices; any other value has
  no own enumerable property.
\<close>

definition string_entries :: "string \<Rightarrow> (string \<times> wval) list" where
  "string_entries s = map (\<lambda>i. (decimal i, WVal (VStr [s ! i]))) [0..<length s]"

fun spread_wval :: "wval option \<Rightarrow> (string \<times> wval) list" where
  "spread_wval None = []"
| "spread_wval (Some (WObj obj)) = obj"
| "spread_wval (Some (WVal (VStr s))) = string_entries s"
| "spread_wval (Some (WVal v)) = []"

definition exact_value :: "runtime \<Rightarrow> js_type option \<Rightarrow> string \<Rightarrow> jsval" where
  "exact_value rt t v =
     (if isNumber t then VNum (toNumber rt v)
      else if isBoolean t then VBool (v = ''true'')
      else if isDate t then VDate v
      else VStr v)"

definition bound_value :: "runtime \<Rightarrow> js_type option \<Rightarrow> string \<Rightarrow> wval" where
  "bound_value rt t v = WVal (if isNumber t then VNum (toNumber rt v) else VDate v)"

definition range_of :: "runtime \<Rightarrow> js_type option \<Rightarrow> string option \<Rightarrow> string option \<Rightarrow> (string \<times> wval) list" where
  "range_of rt t lo hi =
     (let range1 = (case lo of None \<Rightarrow> [] | Some v \<Rightarrow> obj_set ''$gte'' (bound_value rt t v) [])
      in case hi of None \<Rightarrow> range1 | Some v \<Rightarrow> obj_set ''$lte'' (bound_value rt t v) range1)"

text \<open>One round of the loop over the entries of the filter configuration.\<close>

definition parse_entry ::
  "runtime \<Rightarrow> (string \<rightharpoonup> string) \<Rightarrow> entity_meta \<Rightarrow> entity_class \<Rightarrow> string \<times> filter_config
     \<Rightarrow> (string \<times> wval) list \<Rightarrow> (string \<times> wval) list" where
  "parse_entry rt query meta c entry wh =
     (let key = fst entry; en = exposedName c key
      in case snd entry of
           Flag False \<Rightarrow> wh
         | Custom config \<Rightarrow>
             (case query en of None \<Rightarrow> wh | Some v \<Rightarrow> obj_assign wh (config v))
         | Flag True \<Rightarrow>
             (case map_of (properties meta) key of
                None \<Rightarrow> wh
              | Some prop \<Rightarrow>
                  (let t = ptype prop;
                       w1 = (case query en of
                               None \<Rightarrow> wh
                             | Some v \<Rightarrow> obj_set key (WVal (exact_value rt t v)) wh);
                       w2 = (case query (en @ ''.contains'') of
                               None \<Rightarrow> w1
                             | Some v \<Rightarrow>
                                 if isString t then
                                   obj_set key
                                     (WObj (obj_set ''$like'' (WVal (VStr (''%'' @ v @ ''%'')))
                                              (spread_wval (map_of w1 key)))) w1
                                 else w1);
                       lo = query (en @ ''.min'');
                       hi = query (en @ ''.max'')
                   in if (isNumber t \<or> isDate t) \<and> (lo \<noteq> None \<or> hi \<noteq> None) then
                        obj_set key
                          (WObj (obj_assign (spread_wval (map_of w2 key)) (range_of rt t lo hi))) w2
                      else w2)))"

definition parseQueryFilters ::
  "runtime \<Rightarrow> (string \<rightharpoonup> string) \<Rightarrow> (string \<times> filter_config) list \<Rightarrow> entity_class
     \<Rightarrow> (string \<times> wval) list" where
  "parseQueryFilters rt query filterConfig c =
     (case orm_meta c of
        None \<Rightarrow> []
      | Some meta \<Rightarrow> fold (parse_entry rt query meta c) filterConfig [])"

section \<open>Sample data\<close>

text \<open>
  A small table and the options of a controller without a filter function. This
  repository applies no limit where the limit is no positive natural number, and it
  finds no condition in a pending promise.
\<close>

definition no_level :: class_level where
  "no_level =
     \<lparr>getStrategy = StrategyNone, getExposedMetadatas = [], getExcludedMetadatas = [],
      apiModelPropertiesArray = [], apiModelProperties = Map.empty, ownPropertyNames = [],
      ownPropertyDescriptor = Map.empty, readonly_metadata = (\<lambda>_. False)\<rparr>"

definition plain_class :: entity_class where
  "plain_class =
     \<lparr>class_name = ''Note'', own_level = no_level, ancestors = [], orm_meta = None,
      design_type = Map.empty, type_function = Map.empty\<rparr>"

definition plain_options :: crud_options where
  "plain_options =
     \<lparr>tag = None, entity = plain_class, createDto = None, updateDto = None,
      filter_fn = None, operations_query = None\<rparr>"

definition a_note :: "string \<Rightarrow> string \<Rightarrow> entity" where
  "a_note i who = [''id'' \<mapsto> VStr i, ''owner'' \<mapsto> VStr who]"

definition three_notes :: db where
  "three_notes =
     \<lparr>rows = [a_note ''1'' ''ann'', a_note ''2'' ''bob'', a_note ''3'' ''ann''],
      ordering = (\<lambda>ob xs. xs), beyond = (\<lambda>ofs lmt xs. xs), pending = [],
      calls = [], events = []\<rparr>"

definition no_request :: request where
  "no_request = \<lparr>params = Map.empty, fetched_entity = None\<rparr>"

text \<open>
  A runtime for the examples: it reads unsigned decimal numerals as numbers and accepts
  24 hexadecimal digits as an ObjectId.
\<close>

definition is_digit :: "char \<Rightarrow> bool" where
  "is_digit c = (c \<in> set ''0123456789'')"

definition is_hex :: "char \<Rightarrow> bool" where
  "is_hex c = (c \<in> set ''0123456789abcdefABCDEF'')"

definition sample_runtime :: runtime where
  "sample_runtime =
     \<lparr>toNumber = (\<lambda>s. if s \<noteq> [] \<and> list_all is_digit s
                       then Finite (of_nat (fold (\<lambda>c n. 10 * n + (of_char c - 48)) s 0))
                       else NaN),
      newObjectId = (\<lambda>s. if length s = 24 \<and> list_all is_hex s then Some s else None)\<rparr>"

definition promise_options :: crud_options where
  "promise_options =
     plain_options\<lparr>filter_fn := Some (\<lambda>req. Promise [(''owner'', Eq (VStr ''ann''))])\<rparr>"

text \<open>
  Export requests on a connection that stays open, and a rendering of a note by its id.
\<close>

definition open_connection :: "nat \<Rightarrow> bool" where
  "open_connection p = False"

definition json_request :: express_request where
  "json_request = \<lparr>accept = None, close_fired = open_connection\<rparr>"

definition csv_request :: express_request where
  "csv_request = \<lparr>accept = Some ''text/csv'', close_fired = open_connection\<rparr>"

definition id_text :: "entity \<Rightarrow> string" where
  "id_text e = (case e ''id'' of Some (VStr i) \<Rightarrow> i | _ \<Rightarrow> [])"

definition plain_property :: "string \<Rightarrow> js_type \<Rightarrow> entity_property" where
  "plain_property n t =
     \<lparr>name = n, ptype = Some t, primary = False, persist = None, autoincrement = False,
      onCreate = False, onUpdate = False, version = False, nullable = False, array = False,
      enum = False, items = None, columnTypes = [], integer = False\<rparr>"

definition oid_options :: crud_options where
  "oid_options =
     plain_options\<lparr>entity := plain_class\<lparr>orm_meta := Some
       \<lparr>primaryKeys = [''_id''],
        properties = [(''_id'', (plain_property ''_id'' (TName ''ObjectId''))\<lparr>primary := True\<rparr>)]\<rparr>\<rparr>\<rparr>"

definition num_options :: crud_options where
  "num_options =
     plain_options\<lparr>entity := plain_class\<lparr>orm_meta := Some
       \<lparr>primaryKeys = [''id''],
        properties = [(''id'', (plain_property ''id'' (TName ''number''))\<lparr>primary := True\<rparr>)]\<rparr>\<rparr>\<rparr>"

definition request_for :: "string \<Rightarrow> string \<Rightarrow> request" where
  "request_for k v = \<lparr>params = [k \<mapsto> v], fetched_entity = None\<rparr>"

text \<open>
  An entity with a generated key, a creation date, a field marked \<open>@ReadOnly()\<close> and a
  field that is not exposed, and a filter configuration for it.
\<close>

definition expose :: "string \<Rightarrow> transformer_meta" where
  "expose n = \<lparr>tm_propertyName = Some n, tm_toPlainOnly = False, tm_name = None\<rparr>"

definition task_level :: class_level where
  "task_level =
     no_level\<lparr>getExposedMetadatas :=
                 [expose ''id'', expose ''title'', expose ''estimate'', expose ''createdAt'',
                  expose ''locked''],
               readonly_metadata := (\<lambda>n. n = ''locked'')\<rparr>"

definition task_meta :: entity_meta where
  "task_meta =
     \<lparr>primaryKeys = [''id''],
      properties =
        [(''id'', (plain_property ''id'' (TName ''number''))\<lparr>primary := True, autoincrement := True\<rparr>),
         (''title'', plain_property ''title'' (TName ''string'')),
         (''estimate'', (plain_property ''estimate'' (TName ''number''))\<lparr>nullable := True\<rparr>),
         (''createdAt'', (plain_property ''createdAt'' (TName ''Date''))\<lparr>onCreate := True\<rparr>),
         (''locked'', plain_property ''locked'' (TName ''boolean'')),
         (''secret'', plain_property ''secret'' (TName ''string''))]\<rparr>"

definition task_class :: entity_class where
  "task_class = plain_class\<lparr>class_name := ''Task'', own_level := task_level, orm_meta := Some task_meta\<rparr>"

definition task_options :: crud_options where
  "task_options = plain_options\<lparr>entity := task_class\<rparr>"

text \<open>An entity with a generated key and a field that holds a list of texts.\<close>

definition tagged_meta :: entity_meta where
  "tagged_meta =
     \<lparr>primaryKeys = [''id''],
      properties =
        [(''id'', (plain_property ''id'' (TName ''number''))\<lparr>primary := True, autoincrement := True\<rparr>),
         (''tags'', (plain_property ''tags'' (TName ''string''))\<lparr>array := True\<rparr>)]\<rparr>"

definition tagged_class :: entity_class where
  "tagged_class =
     plain_class\<lparr>class_name := ''Tagged'',
                   own_level := no_level\<lparr>getExposedMetadatas := [expose ''id'', expose ''tags'']\<rparr>,
                   orm_meta := Some tagged_meta\<rparr>"

definition tagged_options :: crud_options where
  "tagged_options = plain_options\<lparr>entity := tagged_class\<rparr>"

definition task_filters :: "(string \<times> filter_config) list" where
  "task_filters =
     [(''estimate'', Flag True), (''title'', Flag True),
      (''mine'', Custom (\<lambda>v. [(''owner'', WVal (VStr v))]))]"

text \<open>The query string \<open>title=abc&title.contains=x\<close>.\<close>

definition exact_and_contains :: "string \<rightharpoonup> string" where
  "exact_and_contains = [''title'' \<mapsto> ''abc'', ''title.contains'' \<mapsto> ''x'']"

definition task_query :: "string \<rightharpoonup> string" where
  "task_query = [''estimate.min'' \<mapsto> ''10'', ''estimate.max'' \<mapsto> ''20'', ''title.contains'' \<mapsto> ''ab'']"

section \<open>Properties of the data layer\<close>

lemma selected_logged [simp]: "selected (logged c s) w ob = selected s w ob"
  by (simp add: selected_def logged_def)

lemma calls_logged [simp]: "calls (logged c s) = calls s @ [c]"
  by (simp add: logged_def)

lemma rows_logged [simp]: "rows (logged c s) = rows s"
  by (simp add: logged_def)

lemma as_nat_js_number [simp]: "as_nat (js_number k) = Some k"
  by (simp add: js_number_def)

lemma as_nat_is_number: "as_nat x = Some k \<Longrightarrow> x = js_number k"
  by (cases x) (auto simp: js_number_def split: if_splits)

lemma param_as_nat_is_number: "param_as_nat q = Some k \<Longrightarrow> q = QNum (js_number k)"
  by (cases q) (auto dest: as_nat_is_number)

lemma js_times_number [simp]: "js_times (js_number a) (js_number b) = js_number (a * b)"
  by (simp add: js_number_def)

lemma read_filter_logged [simp]: "read_filter (logged c s) handed = read_filter s handed"
  by (cases handed) (simp_all add: read_filter_def logged_def)

lemma read_filter_Plain [simp]: "read_filter s (Plain w) = w"
  by (simp add: read_filter_def)

lemma page_of_natural:
  "0 < n \<Longrightarrow> page_of s (js_number k) (QNum (js_number n)) xs = take n (drop k xs)"
  by (simp add: page_of_def)

lemma service_query_result:
  "fst (service_query handed ofs lmt ob s) =
     (page_of s ofs lmt (selected s (read_filter s handed) ob),
      length (filter (matches (read_filter s handed)) (rows s)))"
  by (simp add: service_query_def repo_findAndCount_def Let_def)

lemma service_query_state:
  "snd (service_query handed ofs lmt ob s) = logged (FindAndCount handed ofs lmt ob) s"
  by (simp add: service_query_def repo_findAndCount_def Let_def)

lemma query_handler_paginated:
  assumes "queryUsesPagination options"
  shows "query_handler rt options req page_param limit_param s =
     (Paginated
        \<lparr>data = page_of s
                  (js_times (to_num rt (or_default page_param 0))
                     (to_num rt (or_default limit_param 100)))
                  (or_default limit_param 100)
                  (selected s (awaited_filter options req) (query_orderBy options)),
         total = length (filter (matches (awaited_filter options req)) (rows s)),
         page = or_default page_param 0,
         limit = or_default limit_param 100,
         totalPages = js_ceil (js_divide
            (js_number (length (filter (matches (awaited_filter options req)) (rows s))))
            (to_num rt (or_default limit_param 100)))\<rparr>,
      logged (FindAndCount (Plain (awaited_filter options req))
                (js_times (to_num rt (or_default page_param 0))
                   (to_num rt (or_default limit_param 100)))
                (or_default limit_param 100) (query_orderBy options)) s)"
  using assms
  by (simp add: query_handler_def Let_def service_query_def repo_findAndCount_def)

lemma ceil_number:
  "0 < n \<Longrightarrow> js_ceil (js_divide (js_number t) (js_number n))
      = js_number (nat \<lceil>rat_of_nat t / rat_of_nat n\<rceil>)"
  by (simp add: js_number_def)

lemma plain_paginated: "queryUsesPagination plain_options"
  by (simp add: queryUsesPagination_def plain_options_def)

lemma plain_awaited: "awaited_filter plain_options no_request = []"
  by (simp add: awaited_filter_def call_filter_def plain_options_def)

lemma plain_orderBy: "query_orderBy plain_options = None"
  by (simp add: query_orderBy_def plain_options_def)

lemma three_notes_selected:
  "selected three_notes [] None = [a_note ''1'' ''ann'', a_note ''2'' ''bob'', a_note ''3'' ''ann'']"
  by (simp add: selected_def three_notes_def matches_def)

lemma three_notes_count: "length (filter (matches []) (rows three_notes)) = 3"
  by (simp add: three_notes_def matches_def)

section \<open>Pagination\<close>

text \<open>
  C4. A paginated list answer reports as \<open>total\<close> the number of rows that match the
  filter and as \<open>totalPages\<close> the value of \<open>Math.ceil(total / limit)\<close> on the
  numbers of the runtime, and the one query it issues has offset \<open>page * limit\<close> and
  the limit as the handler holds it. Where the page is a natural number and the limit
  a positive natural number, both as numbers, the data are the rows of that page, at
  most \<open>limit\<close> of them, and \<open>totalPages\<close> is the ceiling of the quotient. The
  handler checks neither parameter, so nothing bounds the data for other values.
\<close>

theorem query_pagination:
  assumes "queryUsesPagination options"
  shows "\<exists>d. fst (query_handler rt options req page_param limit_param s) = Paginated d
     \<and> total d = length (filter (matches (awaited_filter options req)) (rows s))
     \<and> totalPages d = js_ceil (js_divide (js_number (total d)) (to_num rt (limit d)))
     \<and> calls (snd (query_handler rt options req page_param limit_param s)) =
         calls s @ [FindAndCount (Plain (awaited_filter options req))
                      (js_times (to_num rt (page d)) (to_num rt (limit d))) (limit d)
                      (query_orderBy options)]
     \<and> (\<forall>p n. param_as_nat (page d) = Some p \<and> param_as_nat (limit d) = Some n \<and> 0 < n \<longrightarrow>
           data d = take n (drop (p * n)
                      (selected s (awaited_filter options req) (query_orderBy options)))
         \<and> length (data d) \<le> n
         \<and> totalPages d = js_number (nat \<lceil>rat_of_nat (total d) / rat_of_nat n\<rceil>))"
proof -
  let ?w = "awaited_filter options req"
  let ?pg = "or_default page_param 0"
  let ?lmt = "or_default limit_param 100"
  let ?ofs = "js_times (to_num rt ?pg) (to_num rt ?lmt)"
  let ?R = "selected s ?w (query_orderBy options)"
  let ?t = "length (filter (matches ?w) (rows s))"
  let ?d = "\<lparr>data = page_of s ?ofs ?lmt ?R, total = ?t, page = ?pg, limit = ?lmt,
             totalPages = js_ceil (js_divide (js_number ?t) (to_num rt ?lmt))\<rparr>"
  have q: "query_handler rt options req page_param limit_param s =
      (Paginated ?d, logged (FindAndCount (Plain ?w) ?ofs ?lmt (query_orderBy options)) s)"
    by (rule query_handler_paginated [OF assms])
  have nat_case: "\<forall>p n. param_as_nat (page ?d) = Some p \<and> param_as_nat (limit ?d) = Some n \<and> 0 < n \<longrightarrow>
           data ?d = take n (drop (p * n) ?R)
         \<and> length (data ?d) \<le> n
         \<and> totalPages ?d = js_number (nat \<lceil>rat_of_nat (total ?d) / rat_of_nat n\<rceil>)"
  proof (intro allI impI)
    fix p n
    assume h: "param_as_nat (page ?d) = Some p \<and> param_as_nat (limit ?d) = Some n \<and> 0 < n"
    then have pg: "?pg = QNum (js_number p)" and lm: "?lmt = QNum (js_number n)" and n: "0 < n"
      by (auto dest: param_as_nat_is_number)
    have d: "data ?d = take n (drop (p * n) ?R)"
      by (simp add: pg lm page_of_natural [OF n])
    have tp: "totalPages ?d = js_number (nat \<lceil>rat_of_nat (total ?d) / rat_of_nat n\<rceil>)"
      by (simp add: lm ceil_number [OF n])
    show "data ?d = take n (drop (p * n) ?R)
         \<and> length (data ?d) \<le> n
         \<and> totalPages ?d = js_number (nat \<lceil>rat_of_nat (total ?d) / rat_of_nat n\<rceil>)"
      using d tp by simp
  qed
  show ?thesis
  proof (intro exI [of _ ?d] conjI)
    show "fst (query_handler rt options req page_param limit_param s) = Paginated ?d"
      by (simp add: q)
    show "total ?d = ?t" by simp
    show "totalPages ?d = js_ceil (js_divide (js_number (total ?d)) (to_num rt (limit ?d)))"
      by simp
    show "calls (snd (query_handler rt options req page_param limit_param s)) =
         calls s @ [FindAndCount (Plain ?w)
                      (js_times (to_num rt (page ?d)) (to_num rt (limit ?d))) (limit ?d)
                      (query_orderBy options)]"
      by (simp add: q)
    show "\<forall>p n. param_as_nat (page ?d) = Some p \<and> param_as_nat (limit ?d) = Some n \<and> 0 < n \<longrightarrow>
           data ?d = take n (drop (p * n) ?R)
         \<and> length (data ?d) \<le> n
         \<and> totalPages ?d = js_number (nat \<lceil>rat_of_nat (total ?d) / rat_of_nat n\<rceil>)"
      by (rule nat_case)
  qed
qed

theorem query_pagination_witness:
  "queryUsesPagination plain_options
   \<and> fst (query_handler sample_runtime plain_options no_request (QNum (Finite 1)) (QNum (Finite 2))
          three_notes)
       = Paginated \<lparr>data = [a_note ''3'' ''ann''], total = 3, page = QNum (Finite 1),
                    limit = QNum (Finite 2), totalPages = Finite 2\<rparr>"
proof -
  have ev: "fst (query_handler sample_runtime plain_options no_request (QNum (Finite 1))
                  (QNum (Finite 2)) three_notes)
      = Paginated \<lparr>data = page_of three_notes (Finite 2) (QNum (Finite 2))
                            (selected three_notes [] None),
                   total = 3, page = QNum (Finite 1), limit = QNum (Finite 2),
                   totalPages = js_ceil (js_divide (js_number 3) (Finite 2))\<rparr>"
    by (simp add: query_handler_paginated [OF plain_paginated] plain_awaited plain_orderBy
        three_notes_count or_default_def)
  from query_pagination [OF plain_paginated, of sample_runtime no_request "QNum (Finite 1)"
      "QNum (Finite 2)" three_notes]
  obtain d where
    d: "fst (query_handler sample_runtime plain_options no_request (QNum (Finite 1))
              (QNum (Finite 2)) three_notes) = Paginated d"
    and t: "total d = length (filter (matches (awaited_filter plain_options no_request))
              (rows three_notes))"
    and n: "\<forall>p n. param_as_nat (page d) = Some p \<and> param_as_nat (limit d) = Some n \<and> 0 < n \<longrightarrow>
           data d = take n (drop (p * n)
                      (selected three_notes (awaited_filter plain_options no_request)
                         (query_orderBy plain_options)))
         \<and> length (data d) \<le> n
         \<and> totalPages d = js_number (nat \<lceil>rat_of_nat (total d) / rat_of_nat n\<rceil>)"
    by blast
  have pl: "page d = QNum (Finite 1) \<and> limit d = QNum (Finite 2)"
    using d ev by auto
  have t3: "total d = 3"
    using t by (simp add: plain_awaited three_notes_count)
  have "param_as_nat (page d) = Some 1 \<and> param_as_nat (limit d) = Some 2 \<and> 0 < (2::nat)"
    by (simp add: pl)
  with n have "data d = take 2 (drop (1 * 2)
                      (selected three_notes (awaited_filter plain_options no_request)
                         (query_orderBy plain_options)))
         \<and> totalPages d = js_number (nat \<lceil>rat_of_nat (total d) / rat_of_nat 2\<rceil>)"
    by blast
  moreover have "\<lceil>(3::rat) / 2\<rceil> = 2"
    by (rule ceiling_unique) simp_all
  ultimately have dt: "data d = [a_note ''3'' ''ann''] \<and> totalPages d = Finite 2"
    by (simp add: plain_awaited plain_orderBy three_notes_selected t3 js_number_def)
  have "d = \<lparr>data = [a_note ''3'' ''ann''], total = 3, page = QNum (Finite 1),
            limit = QNum (Finite 2), totalPages = Finite 2\<rparr>"
    using dt t3 pl by (cases d) simp
  then show ?thesis using d plain_paginated by simp
qed

theorem query_pagination_counterexample:
  "queryUsesPagination plain_options
   \<and> fst (query_handler sample_runtime plain_options no_request QAbsent (QNum (Finite (- 1)))
          three_notes)
       = Paginated \<lparr>data = [a_note ''1'' ''ann'', a_note ''2'' ''bob'', a_note ''3'' ''ann''],
                    total = 3, page = QNum (Finite 0), limit = QNum (Finite (- 1)),
                    totalPages = Finite (- 3)\<rparr>
   \<and> \<not> rat_of_nat (length [a_note ''1'' ''ann'', a_note ''2'' ''bob'', a_note ''3'' ''ann''])
         \<le> - 1"
proof -
  have b: "page_of three_notes (Finite 0) (QNum (Finite (- 1))) (selected three_notes [] None)
      = [a_note ''1'' ''ann'', a_note ''2'' ''bob'', a_note ''3'' ''ann'']"
    unfolding three_notes_selected by (simp add: page_of_def three_notes_def)
  show ?thesis
    by (simp add: query_handler_paginated [OF plain_paginated] plain_awaited plain_orderBy
        three_notes_count or_default_def js_number_def b plain_paginated)
qed

text \<open>
  With the limit \<open>-1\<close> the answer of any repository has \<open>- total\<close> pages and more
  rows than the limit.
\<close>

lemma negative_limit:
  assumes "queryUsesPagination options"
  shows "\<exists>d. fst (query_handler rt options req page_param (QNum (Finite (- 1))) s) = Paginated d
     \<and> limit d = QNum (Finite (- 1))
     \<and> totalPages d = Finite (- rat_of_nat (total d))
     \<and> \<not> rat_of_nat (length (data d)) \<le> - 1"
  by (simp add: query_handler_paginated [OF assms] or_default_def js_number_def)

text \<open>
  C9. In a paginated list request a limit that is absent, the empty text, the number 0
  or \<open>NaN\<close> becomes 100, and a page that is one of these becomes 0; every other value,
  the text \<open>0\<close> of a query string among them, is kept as delivered. The query is
  issued with offset \<open>page * limit\<close> on these values.
\<close>

theorem query_defaults:
  assumes "queryUsesPagination options"
  shows "\<exists>d. fst (query_handler rt options req page_param limit_param s) = Paginated d
     \<and> limit d = (if limit_param = QAbsent \<or> limit_param = QText [] \<or> limit_param = QNum (Finite 0)
                      \<or> limit_param = QNum NaN
                   then QNum (Finite 100) else limit_param)
     \<and> page d = (if page_param = QAbsent \<or> page_param = QText [] \<or> page_param = QNum (Finite 0)
                      \<or> page_param = QNum NaN
                  then QNum (Finite 0) else page_param)
     \<and> calls (snd (query_handler rt options req page_param limit_param s)) =
         calls s @ [FindAndCount (Plain (awaited_filter options req))
                      (js_times (to_num rt (page d)) (to_num rt (limit d))) (limit d)
                      (query_orderBy options)]"
proof -
  have f: "\<And>x. falsy x = (x = QAbsent \<or> x = QText [] \<or> x = QNum (Finite 0) \<or> x = QNum NaN)"
  proof -
    fix x show "falsy x = (x = QAbsent \<or> x = QText [] \<or> x = QNum (Finite 0) \<or> x = QNum NaN)"
      by (cases x) auto
  qed
  show ?thesis
    by (simp add: query_handler_paginated [OF assms] or_default_def f js_number_def)
qed

theorem query_defaults_witness:
  "queryUsesPagination plain_options
   \<and> calls (snd (query_handler sample_runtime plain_options no_request (QNum (Finite 2)) QAbsent
        three_notes))
      = [FindAndCount (Plain []) (Finite 200) (QNum (Finite 100)) None]"
  using query_defaults [OF plain_paginated, of sample_runtime no_request "QNum (Finite 2)" QAbsent
      three_notes]
  by (auto simp: plain_awaited plain_orderBy plain_paginated three_notes_def)

theorem query_defaults_counterexample:
  "queryUsesPagination plain_options
   \<and> calls (snd (query_handler sample_runtime plain_options no_request QAbsent (QText ''0'')
        three_notes))
      = [FindAndCount (Plain []) (Finite 0) (QText ''0'') None]"
  by (simp add: query_handler_paginated [OF plain_paginated] plain_awaited plain_orderBy
      or_default_def js_number_def plain_paginated three_notes_def sample_runtime_def is_digit_def)

section \<open>Export\<close>

text \<open>
  The generator started on page \<open>pg\<close>, when all earlier batches were full: it fetches
  \<open>n\<close> consecutive pages and yields the rows of these pages in order.
\<close>

lemma generateData_from:
  assumes "pg * 500 \<le> length (selected s (read_filter s handed) None)"
  shows "\<exists>n. calls (snd (generateData f ab handed pg s)) =
               calls s @ map (\<lambda>p. FindAndCount handed (js_number (p * 500))
                                   (QNum (js_number 500)) None) [pg..<pg + n]
           \<and> fst (generateData f ab handed pg s) =
               map f (take (n * 500) (drop (pg * 500) (selected s (read_filter s handed) None)))
           \<and> (\<forall>p. pg \<le> p \<and> p < pg + n \<longrightarrow>
                 \<not> ab p \<and> p * 500 \<le> length (selected s (read_filter s handed) None))
           \<and> (ab (pg + n)
                \<or> (0 < n \<and> length (selected s (read_filter s handed) None) < (pg + n) * 500))"
  using assms
proof (induction f ab handed pg s rule: generateData.induct)
  case (1 f ab handed pg s)
  let ?R = "selected s (read_filter s handed) None"
  let ?items = "take 500 (drop (pg * 500) ?R)"
  let ?c = "FindAndCount handed (js_number (pg * 500)) (QNum (js_number 500)) None"
  let ?s1 = "logged ?c s"
  have pos: "0 < (500::nat)" by simp
  have batch: "fst (fst (service_query handed (js_number (pg * 500)) (QNum (js_number 500))
                  None s)) = ?items"
    by (simp add: service_query_result page_of_natural [OF pos])
  have state: "snd (service_query handed (js_number (pg * 500)) (QNum (js_number 500)) None s)
      = ?s1"
    by (rule service_query_state)
  have R1: "selected ?s1 (read_filter ?s1 handed) None = ?R" by simp
  show ?case
  proof (cases "ab pg")
    case True
    then have "generateData f ab handed pg s = ([], s)"
      by (subst generateData.simps) simp
    then show ?thesis using True by (intro exI[of _ 0]) auto
  next
    case nab: False
    show ?thesis
    proof (cases "length ?items < 500")
      case True
      then have short: "length ?R < (pg + 1) * 500" by simp
      have stop: "generateData f ab handed pg s = (map f ?items, ?s1)"
        using nab True
        by (subst generateData.simps)
          (cases "?items = []", simp_all only: batchSize_def Let_def batch state, simp_all)
      show ?thesis using nab short "1.prems"
        by (intro exI[of _ 1]) (auto simp: stop less_Suc_eq)
    next
      case False
      then have full: "length ?items = 500" by simp
      then have next_ok: "(pg + 1) * 500 \<le> length (selected ?s1 (read_filter ?s1 handed) None)"
        unfolding R1 by simp
      have step: "generateData f ab handed pg s =
          (map f ?items @ fst (generateData f ab handed (pg + 1) ?s1),
           snd (generateData f ab handed (pg + 1) ?s1))"
        using nab full
        by (subst generateData.simps) (simp only: batchSize_def Let_def batch state, simp)
      have l0: "\<not> length (fst (fst (service_query handed (js_number (pg * batchSize))
                  (QNum (js_number batchSize)) None s))) = 0"
        using full by (simp add: batchSize_def batch)
      have l1: "\<not> length (fst (fst (service_query handed (js_number (pg * batchSize))
                  (QNum (js_number batchSize)) None s))) < batchSize"
        using full by (simp add: batchSize_def batch)
      have "\<exists>n. calls (snd (generateData f ab handed (pg + 1) ?s1)) =
              calls ?s1 @ map (\<lambda>p. FindAndCount handed (js_number (p * 500))
                                   (QNum (js_number 500)) None) [pg + 1..<pg + 1 + n]
          \<and> fst (generateData f ab handed (pg + 1) ?s1) =
              map f (take (n * 500) (drop ((pg + 1) * 500)
                 (selected ?s1 (read_filter ?s1 handed) None)))
          \<and> (\<forall>p. pg + 1 \<le> p \<and> p < pg + 1 + n \<longrightarrow> \<not> ab p
                 \<and> p * 500 \<le> length (selected ?s1 (read_filter ?s1 handed) None))
          \<and> (ab (pg + 1 + n)
               \<or> (0 < n \<and> length (selected ?s1 (read_filter ?s1 handed) None) < (pg + 1 + n) * 500))"
        using "1.IH" [OF nab refl refl refl l0 l1] next_ok
        by (simp only: batchSize_def state)
      then obtain n where
        c: "calls (snd (generateData f ab handed (pg + 1) ?s1)) =
              calls ?s1 @ map (\<lambda>p. FindAndCount handed (js_number (p * 500))
                                   (QNum (js_number 500)) None) [pg + 1..<pg + 1 + n]"
        and y: "fst (generateData f ab handed (pg + 1) ?s1) =
              map f (take (n * 500) (drop ((pg + 1) * 500) ?R))"
        and g: "\<forall>p. pg + 1 \<le> p \<and> p < pg + 1 + n \<longrightarrow> \<not> ab p \<and> p * 500 \<le> length ?R"
        and e: "ab (pg + 1 + n) \<or> (0 < n \<and> length ?R < (pg + 1 + n) * 500)"
        unfolding R1 by blast
      have take_split: "take ((n + 1) * 500) (drop (pg * 500) ?R) =
          ?items @ take (n * 500) (drop ((pg + 1) * 500) ?R)"
      proof -
        have "take (500 + n * 500) (drop (pg * 500) ?R) =
            take 500 (drop (pg * 500) ?R) @ take (n * 500) (drop 500 (drop (pg * 500) ?R))"
          by (rule take_add)
        then show ?thesis by (simp add: add.commute)
      qed
      have guard: "\<forall>p. pg \<le> p \<and> p < pg + (n + 1) \<longrightarrow> \<not> ab p \<and> p * 500 \<le> length ?R"
      proof (intro allI impI)
        fix p assume p: "pg \<le> p \<and> p < pg + (n + 1)"
        show "\<not> ab p \<and> p * 500 \<le> length ?R"
        proof (cases "p = pg")
          case True then show ?thesis using nab "1.prems" by simp
        next
          case False then show ?thesis using p g by simp
        qed
      qed
      show ?thesis
      proof (intro exI[of _ "n + 1"] conjI)
        show "calls (snd (generateData f ab handed pg s)) =
            calls s @ map (\<lambda>p. FindAndCount handed (js_number (p * 500))
                                   (QNum (js_number 500)) None) [pg..<pg + (n + 1)]"
        proof -
          have u: "[pg..<pg + (n + 1)] = pg # [pg + 1..<pg + 1 + n]"
            by (subst upt_rec) simp
          show ?thesis unfolding u step using c by simp
        qed
        show "fst (generateData f ab handed pg s)
            = map f (take ((n + 1) * 500) (drop (pg * 500) ?R))"
          unfolding take_split using y by (simp add: step)
        show "\<forall>p. pg \<le> p \<and> p < pg + (n + 1) \<longrightarrow> \<not> ab p \<and> p * 500 \<le> length ?R"
          by (rule guard)
        show "ab (pg + (n + 1)) \<or> (0 < n + 1 \<and> length ?R < (pg + (n + 1)) * 500)"
          using e by (auto simp: add.commute add.left_commute)
      qed
    qed
  qed
qed

lemma generateData_whole:
  "\<exists>n. calls (snd (generateData toPlain aborted handed 0 s)) =
         calls s @ map (\<lambda>p. FindAndCount handed (js_number (p * 500)) (QNum (js_number 500)) None)
                     [0..<n]
      \<and> fst (generateData toPlain aborted handed 0 s) =
         map toPlain (take (n * 500) (selected s (read_filter s handed) None))
      \<and> (\<forall>p. Suc p < n \<longrightarrow>
            length (take 500 (drop (p * 500) (selected s (read_filter s handed) None))) = 500)
      \<and> (\<forall>p < n. \<not> aborted p)
      \<and> (\<forall>k. aborted k \<longrightarrow> n \<le> k)
      \<and> ((\<forall>k. \<not> aborted k) \<longrightarrow>
           fst (generateData toPlain aborted handed 0 s) =
             map toPlain (selected s (read_filter s handed) None))"
proof -
  let ?R = "selected s (read_filter s handed) None"
  from generateData_from [of 0 s handed toPlain aborted]
  obtain n where
    c: "calls (snd (generateData toPlain aborted handed 0 s)) =
          calls s @ map (\<lambda>p. FindAndCount handed (js_number (p * 500)) (QNum (js_number 500)) None)
                      [0..<n]"
    and y: "fst (generateData toPlain aborted handed 0 s) = map toPlain (take (n * 500) ?R)"
    and g: "\<forall>p. p < n \<longrightarrow> \<not> aborted p \<and> p * 500 \<le> length ?R"
    and e: "aborted n \<or> (0 < n \<and> length ?R < n * 500)"
    by auto
  have full: "\<forall>p. Suc p < n \<longrightarrow> length (take 500 (drop (p * 500) ?R)) = 500"
  proof (intro allI impI)
    fix p assume "Suc p < n"
    then have "Suc p * 500 \<le> length ?R" using g by blast
    then show "length (take 500 (drop (p * 500) ?R)) = 500" by simp
  qed
  have stop: "\<forall>k. aborted k \<longrightarrow> n \<le> k"
  proof (intro allI impI)
    fix k assume "aborted k"
    then have "\<not> k < n" using g by blast
    then show "n \<le> k" by simp
  qed
  have whole: "(\<forall>k. \<not> aborted k) \<longrightarrow>
      fst (generateData toPlain aborted handed 0 s) = map toPlain ?R"
  proof
    assume "\<forall>k. \<not> aborted k"
    then have "length ?R < n * 500" using e by blast
    then show "fst (generateData toPlain aborted handed 0 s) = map toPlain ?R" using y by simp
  qed
  show ?thesis using c y full g stop whole by blast
qed

lemma generateData_open:
  assumes "\<forall>k. \<not> aborted k"
  shows "fst (generateData toPlain aborted handed 0 s) =
           map toPlain (selected s (read_filter s handed) None)"
  using generateData_whole [of toPlain aborted handed s] assms by blast

lemma export_filter_awaited:
  assumes "\<forall>w. call_filter options nestReq \<noteq> Promise w"
  shows "export_filter options nestReq = Plain (awaited_filter options nestReq)"
  using assms
  by (cases "call_filter options nestReq") (simp_all add: export_filter_def awaited_filter_def)

lemma export_handler_json:
  assumes "accept req \<noteq> Some ''text/csv''"
  shows "export_handler toPlain stringify render options nestReq req s =
     (\<lparr>content_type = ''application/json'', content_disposition = None,
       sent = Inr (generateJson stringify
                (fst (generateData toPlain (close_fired req) (export_filter options nestReq) 0 s)))\<rparr>,
      snd (generateData toPlain (close_fired req) (export_filter options nestReq) 0 s))"
  using assms by (simp add: export_handler_def Let_def case_prod_beta)

lemma export_handler_csv:
  assumes "accept req = Some ''text/csv''"
  shows "export_handler toPlain stringify render options nestReq req s =
     (\<lparr>content_type = ''text/csv'',
       content_disposition = Some (''attachment; filename=''
          @ (case tag options of None \<Rightarrow> ''export'' | Some t \<Rightarrow> t) @ ''.csv''),
       sent = CsvTransform False render
                (fst (generateData toPlain (close_fired req) (export_filter options nestReq) 0 s))\<rparr>,
      snd (generateData toPlain (close_fired req) (export_filter options nestReq) 0 s))"
  using assms by (simp add: export_handler_def Let_def case_prod_beta)

text \<open>
  With a filter function that returns a filter object, or none, and a request that
  does not ask for CSV, the export handler behaves as described: paged queries of 500
  rows at offset \<open>page * 500\<close>, a further batch only after a full one and only while the
  connection has not been seen closed, and a JSON array of the filtered rows in query
  order when the connection stays open.
\<close>

lemma export_json_with_filter_object:
  assumes "\<forall>w. call_filter options nestReq \<noteq> Promise w"
    and "accept req \<noteq> Some ''text/csv''"
  shows "\<exists>n. calls (snd (export_handler toPlain stringify render options nestReq req s)) =
         calls s @ map (\<lambda>p. FindAndCount (Plain (awaited_filter options nestReq))
                              (js_number (p * 500)) (QNum (js_number 500)) None) [0..<n]
      \<and> sent (fst (export_handler toPlain stringify render options nestReq req s)) =
         Inr (generateJson stringify
                (map toPlain (take (n * 500) (selected s (awaited_filter options nestReq) None))))
      \<and> (\<forall>p. Suc p < n \<longrightarrow>
            length (take 500 (drop (p * 500) (selected s (awaited_filter options nestReq) None)))
              = 500)
      \<and> (\<forall>p < n. \<not> close_fired req p)
      \<and> (\<forall>k. close_fired req k \<longrightarrow> n \<le> k)
      \<and> ((\<forall>k. \<not> close_fired req k) \<longrightarrow>
           sent (fst (export_handler toPlain stringify render options nestReq req s)) =
             Inr (generateJson stringify
                    (map toPlain (selected s (awaited_filter options nestReq) None))))"
proof -
  let ?w = "awaited_filter options nestReq"
  let ?g = "generateData toPlain (close_fired req) (Plain ?w) 0 s"
  have h: "export_handler toPlain stringify render options nestReq req s =
     (\<lparr>content_type = ''application/json'', content_disposition = None,
       sent = Inr (generateJson stringify (fst ?g))\<rparr>, snd ?g)"
    by (simp add: export_handler_json [OF assms(2)] export_filter_awaited [OF assms(1)])
  have r: "read_filter s (Plain ?w) = ?w" by simp
  from generateData_whole [of toPlain "close_fired req" "Plain ?w" s]
  obtain n where
    c: "calls (snd ?g) =
          calls s @ map (\<lambda>p. FindAndCount (Plain ?w) (js_number (p * 500))
                               (QNum (js_number 500)) None) [0..<n]"
    and y: "fst ?g = map toPlain (take (n * 500) (selected s ?w None))"
    and f: "\<forall>p. Suc p < n \<longrightarrow> length (take 500 (drop (p * 500) (selected s ?w None))) = 500"
    and g: "\<forall>p < n. \<not> close_fired req p"
    and k: "\<forall>k. close_fired req k \<longrightarrow> n \<le> k"
    and w: "(\<forall>k. \<not> close_fired req k) \<longrightarrow> fst ?g = map toPlain (selected s ?w None)"
    unfolding r by blast
  show ?thesis
  proof (intro exI [of _ n] conjI)
    show "calls (snd (export_handler toPlain stringify render options nestReq req s)) =
         calls s @ map (\<lambda>p. FindAndCount (Plain ?w) (js_number (p * 500))
                              (QNum (js_number 500)) None) [0..<n]"
      unfolding h using c by simp
    show "sent (fst (export_handler toPlain stringify render options nestReq req s)) =
         Inr (generateJson stringify (map toPlain (take (n * 500) (selected s ?w None))))"
      unfolding h using y by simp
    show "\<forall>p. Suc p < n \<longrightarrow> length (take 500 (drop (p * 500) (selected s ?w None))) = 500"
      by (rule f)
    show "\<forall>p < n. \<not> close_fired req p" by (rule g)
    show "\<forall>k. close_fired req k \<longrightarrow> n \<le> k" by (rule k)
    show "(\<forall>k. \<not> close_fired req k) \<longrightarrow>
           sent (fst (export_handler toPlain stringify render options nestReq req s)) =
             Inr (generateJson stringify (map toPlain (selected s ?w None)))"
      unfolding h using w by simp
  qed
qed

text \<open>
  A promise handed to the service is read as the repository reads a pending promise:
  the rows exported do not depend on the filter the promise resolves to.
\<close>

lemma export_of_promise:
  assumes "call_filter options nestReq = Promise w"
    and "\<forall>k. \<not> close_fired req k"
  shows "fst (generateData toPlain (close_fired req) (export_filter options nestReq) 0 s)
           = map toPlain (selected s (pending s) None)"
proof -
  have "export_filter options nestReq = Promise w"
    using assms(1) by (simp add: export_filter_def)
  then show ?thesis
    using generateData_open [OF assms(2), of toPlain "Promise w" s]
    by (simp add: read_filter_def)
qed

text \<open>
  A request for CSV whose export has a row to write ends in the \<open>TypeError\<close> of the
  transform.
\<close>

lemma export_csv_fails:
  assumes "accept req = Some ''text/csv''"
    and "\<forall>k. \<not> close_fired req k"
    and "selected s (read_filter s (export_filter options nestReq)) None \<noteq> []"
  shows "sent (fst (export_handler toPlain stringify render options nestReq req s)) = Inl TypeError"
  unfolding export_handler_csv [OF assms(1)]
  using generateData_open [OF assms(2), of toPlain "export_filter options nestReq" s] assms(3)
  by (simp add: CsvTransform_def)

lemma promise_call: "call_filter promise_options no_request = Promise [(''owner'', Eq (VStr ''ann''))]"
  by (simp add: call_filter_def promise_options_def plain_options_def)

lemma id_text_note [simp]: "id_text (a_note i who) = i"
  by (simp add: id_text_def a_note_def)

text \<open>
  C1. The export handler hands the result of the filter function to the service
  without awaiting it. With a filter function that returns a promise of
  \<open>owner = ann\<close>, the export on a table of three notes, two of them of ann, writes all
  three notes, and the one query it issues carries the promise. A request for CSV on
  the same table, with no filter function, ends in the \<open>TypeError\<close> of the
  transform and writes no row.
\<close>

theorem export_hands_over_pending_filter:
  "awaited_filter promise_options no_request = [(''owner'', Eq (VStr ''ann''))]
   \<and> map id_text (selected three_notes [(''owner'', Eq (VStr ''ann''))] None) = [''1'', ''3'']
   \<and> sent (fst (export_handler id id_text (map id_text) promise_options no_request json_request
        three_notes)) = Inr [''['', ''1'', '','', ''2'', '','', ''3'', '']'']
   \<and> calls (snd (export_handler id id_text (map id_text) promise_options no_request json_request
        three_notes))
       = [FindAndCount (Promise [(''owner'', Eq (VStr ''ann''))]) (Finite 0) (QNum (Finite 500)) None]
   \<and> fst (export_handler id id_text (map id_text) plain_options no_request csv_request three_notes)
       = \<lparr>content_type = ''text/csv'',
          content_disposition = Some ''attachment; filename=export.csv'',
          sent = Inl TypeError\<rparr>"
proof -
  have a: "awaited_filter promise_options no_request = [(''owner'', Eq (VStr ''ann''))]"
    by (simp add: awaited_filter_def promise_call)
  have b: "map id_text (selected three_notes [(''owner'', Eq (VStr ''ann''))] None) = [''1'', ''3'']"
    by (simp add: selected_def three_notes_def matches_def prop_of_def a_note_def id_text_def)
  have pend: "selected three_notes (pending three_notes) None
      = [a_note ''1'' ''ann'', a_note ''2'' ''bob'', a_note ''3'' ''ann'']"
    using three_notes_selected by (simp add: three_notes_def)
  have ef: "export_filter promise_options no_request = Promise [(''owner'', Eq (VStr ''ann''))]"
    by (simp add: export_filter_def promise_call)
  have g: "generateData id open_connection (Promise [(''owner'', Eq (VStr ''ann''))]) 0 three_notes
      = ([a_note ''1'' ''ann'', a_note ''2'' ''bob'', a_note ''3'' ''ann''],
         logged (FindAndCount (Promise [(''owner'', Eq (VStr ''ann''))]) (js_number 0)
                   (QNum (js_number 500)) None) three_notes)"
    by (subst generateData.simps)
      (simp add: open_connection_def service_query_result service_query_state batchSize_def
        page_of_def read_filter_def pend Let_def)
  have nc: "accept json_request \<noteq> Some ''text/csv''"
    by (simp add: json_request_def)
  have cf: "close_fired json_request = open_connection"
    by (simp add: json_request_def)
  have ic: "accept csv_request = Some ''text/csv''"
    by (simp add: csv_request_def)
  have cc: "close_fired csv_request = open_connection"
    by (simp add: csv_request_def)
  have c: "sent (fst (export_handler id id_text (map id_text) promise_options no_request
        json_request three_notes)) = Inr [''['', ''1'', '','', ''2'', '','', ''3'', '']'']"
    by (simp add: export_handler_json [OF nc] ef cf g generateJson_def)
  have d: "calls (snd (export_handler id id_text (map id_text) promise_options no_request
        json_request three_notes))
       = [FindAndCount (Promise [(''owner'', Eq (VStr ''ann''))]) (Finite 0) (QNum (Finite 500)) None]"
    by (simp add: export_handler_json [OF nc] ef cf g) (simp add: js_number_def three_notes_def)
  have pf: "export_filter plain_options no_request = Plain []"
    by (simp add: export_filter_def call_filter_def plain_options_def)
  have g2: "generateData id open_connection (Plain []) 0 three_notes
      = ([a_note ''1'' ''ann'', a_note ''2'' ''bob'', a_note ''3'' ''ann''],
         logged (FindAndCount (Plain []) (js_number 0) (QNum (js_number 500)) None) three_notes)"
    by (subst generateData.simps)
      (simp add: open_connection_def service_query_result service_query_state batchSize_def
        page_of_def three_notes_selected Let_def)
  have e: "fst (export_handler id id_text (map id_text) plain_options no_request csv_request
        three_notes)
       = \<lparr>content_type = ''text/csv'',
          content_disposition = Some ''attachment; filename=export.csv'',
          sent = Inl TypeError\<rparr>"
    by (simp add: export_handler_csv [OF ic] pf cc g2 CsvTransform_def)
      (simp add: plain_options_def)
  show ?thesis using a b c d e by simp
qed

section \<open>Objects and lists\<close>

lemma assign_entity_apply:
  "assign_entity e source k = (case map_of (rev source) k of None \<Rightarrow> e k | Some v \<Rightarrow> Some v)"
proof (induction source arbitrary: e)
  case Nil
  then show ?case by (simp add: assign_entity_def)
next
  case (Cons kv source)
  obtain k' v' where kv: "kv = (k', v')" by (cases kv)
  have step: "assign_entity e (kv # source) = assign_entity (e(k' \<mapsto> v')) source"
    by (simp add: assign_entity_def kv)
  show ?case
    unfolding step Cons.IH
    by (simp add: kv map_add_def split: option.splits)
qed

lemma obj_set_fresh: "k \<notin> fst ` set kvs \<Longrightarrow> obj_set k v kvs = kvs @ [(k, v)]"
  by (induction kvs) auto

lemma obj_assign_distinct:
  "distinct (map fst source) \<Longrightarrow> fst ` set target \<inter> fst ` set source = {}
     \<Longrightarrow> obj_assign target source = target @ source"
  unfolding obj_assign_def
proof (induction source arbitrary: target)
  case Nil
  then show ?case by simp
next
  case (Cons kv source)
  obtain k v where kv: "kv = (k, v)" by (cases kv)
  have fresh: "k \<notin> fst ` set target" using Cons.prems(2) by (auto simp: kv)
  have d: "distinct (map fst source)" using Cons.prems(1) by simp
  have disj: "fst ` set (target @ [(k, v)]) \<inter> fst ` set source = {}"
    using Cons.prems by (auto simp: kv)
  show ?case
    using Cons.IH [OF d disj] by (simp add: kv obj_set_fresh [OF fresh])
qed

lemma toUpdateBody_distinct:
  "distinct (map fst body) \<Longrightarrow> toUpdateBody body = filter (\<lambda>(k, v). v \<noteq> VUndefined) body"
  by (simp add: toUpdateBody_def obj_assign_distinct)

lemma map_of_rev_distinct: "distinct (map fst kvs) \<Longrightarrow> map_of (rev kvs) k = map_of kvs k"
proof (induction kvs)
  case Nil
  then show ?case by simp
next
  case (Cons kv kvs)
  obtain k' v' where kv: "kv = (k', v')" by (cases kv)
  have "k' \<notin> fst ` set kvs" using Cons.prems by (simp add: kv)
  then have none: "map_of (rev kvs) k' = None" by (simp add: map_of_eq_None_iff)
  show ?case using Cons kv none by (auto simp: map_add_def split: option.splits)
qed

lemma map_of_filter_defined:
  "distinct (map fst body) \<Longrightarrow>
   map_of (filter (\<lambda>(k, v). v \<noteq> VUndefined) body) k =
     (case map_of body k of None \<Rightarrow> None | Some v \<Rightarrow> if v = VUndefined then None else Some v)"
proof (induction body)
  case Nil
  then show ?case by simp
next
  case (Cons kv body)
  obtain k' v' where kv: "kv = (k', v')" by (cases kv)
  have notin: "k' \<notin> fst ` set body" using Cons.prems by (simp add: kv)
  then have none: "map_of body k' = None" by (simp add: map_of_eq_None_iff)
  show ?case using Cons kv none by (auto split: option.splits)
qed

lemma find_unique:
  "e \<in> set xs \<Longrightarrow> P e \<Longrightarrow> (\<forall>r \<in> set xs. P r \<longrightarrow> r = e) \<Longrightarrow> find P xs = Some e"
proof (induction xs)
  case Nil
  then show ?case by simp
next
  case (Cons x xs)
  show ?case
  proof (cases "P x")
    case True
    then have "x = e" using Cons.prems(3) by simp
    then show ?thesis using True by simp
  next
    case False
    then have "x \<noteq> e" using Cons.prems(2) by blast
    then have "e \<in> set xs" using Cons.prems(1) by simp
    moreover have "\<forall>r \<in> set xs. P r \<longrightarrow> r = e" using Cons.prems(3) by simp
    ultimately have "find P xs = Some e" using Cons.IH Cons.prems(2) by blast
    then show ?thesis using False by simp
  qed
qed

lemma find_none: "(\<forall>r \<in> set xs. \<not> P r) \<Longrightarrow> find P xs = None"
  by (induction xs) simp_all

lemma replace_first_cong:
  "(\<forall>x \<in> set xs. P x = Q x) \<Longrightarrow> replace_first P y xs = replace_first Q y xs"
  by (induction xs) simp_all

lemma matches_by_primaryKey:
  "matches (by_primaryKey options e) r
     = (prop_of r (crud_primaryKey options) = prop_of e (crud_primaryKey options))"
  by (simp add: matches_def by_primaryKey_def)

lemma lookup_found:
  assumes "lookup rt options req ident s = (Inr e, s1)"
  shows "\<exists>parsed. parseId rt options ident = Inr parsed
           \<and> find (matches (lookup_where options req parsed)) (rows s) = Some e
           \<and> s1 = logged (FindOne (lookup_where options req parsed)) s"
  using assms
  by (auto simp: lookup_def service_findOne_def repo_findOne_def Let_def
      split: sum.splits option.splits)

lemma lookup_missing:
  assumes "parseId rt options ident = Inr parsed"
    and "\<forall>r \<in> set (rows s). \<not> matches (lookup_where options req parsed) r"
  shows "lookup rt options req ident s
           = (Inl NotFound, logged (FindOne (lookup_where options req parsed)) s)"
  using assms
  by (simp add: lookup_def service_findOne_def repo_findOne_def find_none)

lemma lookup_where_awaited:
  assumes "\<forall>f. call_filter options req \<noteq> Promise f"
  shows "lookup_where options req parsed
           = obj_set (crud_primaryKey options) (Eq parsed) (awaited_filter options req)"
  using assms
  by (cases "call_filter options req") (simp_all add: lookup_where_def awaited_filter_def)

section \<open>Partial update\<close>

text \<open>
  C10. A partial update (PUT) of an entity that is found removes from the payload
  every key of the body whose value is \<open>undefined\<close>; the entity keeps the stored value
  of every field that the body does not supply with a defined value and takes the
  supplied value of the others, and no other row changes.
\<close>

theorem update_keeps_unsupplied_fields:
  assumes found: "lookup rt options req ident s = (Inr e, s1)"
    and keys: "distinct (map fst body)"
    and unique: "\<forall>r \<in> set (rows s).
        prop_of r (crud_primaryKey options) = prop_of e (crud_primaryKey options) \<longrightarrow> r = e"
  shows "\<exists>e' s'. update_handler rt options body req ident s = (Inr e', s')
      \<and> toUpdateBody body = filter (\<lambda>(k, v). v \<noteq> VUndefined) body
      \<and> (\<forall>k. e' k = (case map_of body k of
                       None \<Rightarrow> e k
                     | Some v \<Rightarrow> if v = VUndefined then e k else Some v))
      \<and> rows s' = replace_first (\<lambda>r. r = e) e' (rows s)"
proof -
  from lookup_found [OF found] obtain parsed where
    f: "find (matches (lookup_where options req parsed)) (rows s) = Some e"
    and s1: "s1 = logged (FindOne (lookup_where options req parsed)) s"
    by blast
  have mem: "e \<in> set (rows s)"
    using f by (auto simp: find_Some_iff)
  let ?w = "by_primaryKey options e"
  let ?e' = "assign_entity e (toUpdateBody body)"
  have P_eq: "\<forall>r \<in> set (rows s). matches ?w r = (r = e)"
    using unique by (auto simp: matches_by_primaryKey)
  have rows1: "rows s1 = rows s"
    by (simp add: s1)
  have again: "find (matches ?w) (rows s1) = Some e"
    unfolding rows1
  proof (rule find_unique)
    show "e \<in> set (rows s)" by (rule mem)
    show "matches ?w e" by (simp add: matches_by_primaryKey)
    show "\<forall>r \<in> set (rows s). matches ?w r \<longrightarrow> r = e" using P_eq by blast
  qed
  have same: "replace_first (matches ?w) ?e' (rows s1) = replace_first (\<lambda>r. r = e) ?e' (rows s)"
    unfolding rows1 by (rule replace_first_cong [OF P_eq])
  have run: "fst (update_handler rt options body req ident s) = Inr ?e'"
    "rows (snd (update_handler rt options body req ident s))
       = replace_first (matches ?w) ?e' (rows s1)"
    by (simp_all add: update_handler_def found service_update_def service_findOne_def
        repo_findOne_def again Let_def emit_def)
  have d: "distinct (map fst (filter (\<lambda>(k, v). v \<noteq> VUndefined) body))"
    using keys by (rule distinct_map_filter)
  have m: "map_of (rev (toUpdateBody body)) k =
      (case map_of body k of None \<Rightarrow> None | Some v \<Rightarrow> if v = VUndefined then None else Some v)"
    for k
    unfolding toUpdateBody_distinct [OF keys] map_of_rev_distinct [OF d]
    by (rule map_of_filter_defined [OF keys])
  have fields: "\<forall>k. ?e' k = (case map_of body k of
                       None \<Rightarrow> e k
                     | Some v \<Rightarrow> if v = VUndefined then e k else Some v)"
    by (simp add: assign_entity_apply m split: option.splits)
  show ?thesis
  proof (intro exI conjI)
    show "update_handler rt options body req ident s
        = (Inr ?e', snd (update_handler rt options body req ident s))"
      using run(1) by (simp add: prod_eq_iff)
    show "toUpdateBody body = filter (\<lambda>(k, v). v \<noteq> VUndefined) body"
      by (rule toUpdateBody_distinct [OF keys])
    show "\<forall>k. ?e' k = (case map_of body k of
                       None \<Rightarrow> e k
                     | Some v \<Rightarrow> if v = VUndefined then e k else Some v)"
      by (rule fields)
    show "rows (snd (update_handler rt options body req ident s))
        = replace_first (\<lambda>r. r = e) ?e' (rows s)"
      using run(2) same by simp
  qed
qed

theorem update_keeps_unsupplied_fields_witness:
  "\<exists>e' s'. update_handler sample_runtime plain_options
             [(''owner'', VStr ''eve''), (''id'', VUndefined)] no_request ''2'' three_notes
           = (Inr e', s')
         \<and> e' ''owner'' = Some (VStr ''eve'') \<and> e' ''id'' = Some (VStr ''2'')
         \<and> rows s' = [a_note ''1'' ''ann'', e', a_note ''3'' ''ann'']"
proof -
  let ?body = "[(''owner'', VStr ''eve''), (''id'', VUndefined)]"
  let ?e = "a_note ''2'' ''bob''"
  have pk: "crud_primaryKey plain_options = ''id''"
    by (simp add: crud_primaryKey_def plain_options_def plain_class_def)
  have parsed: "parseId sample_runtime plain_options ''2'' = Inr (VStr ''2'')"
    by (simp add: parseId_def crud_primaryKeyType_def plain_options_def plain_class_def)
  have cf: "call_filter plain_options no_request = Nothing"
    by (simp add: call_filter_def plain_options_def)
  have w: "lookup_where plain_options no_request (VStr ''2'') = [(''id'', Eq (VStr ''2''))]"
    by (simp add: lookup_where_def pk cf)
  have found: "lookup sample_runtime plain_options no_request ''2'' three_notes
      = (Inr ?e, logged (FindOne [(''id'', Eq (VStr ''2''))]) three_notes)"
    by (simp add: lookup_def parsed w service_findOne_def repo_findOne_def three_notes_def
        matches_def prop_of_def a_note_def)
  have keys: "distinct (map fst ?body)" by simp
  have unique: "\<forall>r \<in> set (rows three_notes).
      prop_of r (crud_primaryKey plain_options) = prop_of ?e (crud_primaryKey plain_options)
        \<longrightarrow> r = ?e"
    by (simp add: pk three_notes_def prop_of_def a_note_def)
  from update_keeps_unsupplied_fields [OF found keys unique]
  obtain e' s' where
    r: "update_handler sample_runtime plain_options ?body no_request ''2'' three_notes = (Inr e', s')"
    and f: "\<forall>k. e' k = (case map_of ?body k of
                       None \<Rightarrow> ?e k
                     | Some v \<Rightarrow> if v = VUndefined then ?e k else Some v)"
    and rs: "rows s' = replace_first (\<lambda>r. r = ?e) e' (rows three_notes)"
    by blast
  have o: "e' ''owner'' = Some (VStr ''eve'')" using f by simp
  have i: "e' ''id'' = Some (VStr ''2'')" using f by (simp add: a_note_def)
  have ne: "a_note ''1'' ''ann'' \<noteq> ?e"
  proof
    assume "a_note ''1'' ''ann'' = ?e"
    then have "a_note ''1'' ''ann'' ''id'' = ?e ''id''" by simp
    then show False by (simp add: a_note_def)
  qed
  have rows': "rows s' = [a_note ''1'' ''ann'', e', a_note ''3'' ''ann'']"
    using rs ne by (simp add: three_notes_def)
  show ?thesis using r o i rows' by blast
qed

section \<open>Requests for an entity that is absent\<close>

text \<open>
  When the filter function does not return a promise, a delete, partial-update or
  full-update request whose id matches no row under the scoping filter is answered
  with not-found, after the one lookup and nothing else.
\<close>

lemma missing_entity_is_not_found:
  assumes nopromise: "\<forall>f. call_filter options req \<noteq> Promise f"
    and parsed: "parseId rt options ident = Inr parsed"
    and missing: "\<forall>r \<in> set (rows s).
        \<not> matches (obj_set (crud_primaryKey options) (Eq parsed) (awaited_filter options req)) r"
  shows "delete_handler rt options req ident s
           = (Inl NotFound, logged (FindOne (lookup_where options req parsed)) s)"
    and "update_handler rt options body req ident s
           = (Inl NotFound, logged (FindOne (lookup_where options req parsed)) s)"
    and "replace_handler rt options body req ident s
           = (Inl NotFound, logged (FindOne (lookup_where options req parsed)) s)"
proof -
  have "\<forall>r \<in> set (rows s). \<not> matches (lookup_where options req parsed) r"
    using missing by (simp add: lookup_where_awaited [OF nopromise])
  then have l: "lookup rt options req ident s
      = (Inl NotFound, logged (FindOne (lookup_where options req parsed)) s)"
    by (rule lookup_missing [OF parsed])
  show "delete_handler rt options req ident s
           = (Inl NotFound, logged (FindOne (lookup_where options req parsed)) s)"
    by (simp add: delete_handler_def l)
  show "update_handler rt options body req ident s
           = (Inl NotFound, logged (FindOne (lookup_where options req parsed)) s)"
    by (simp add: update_handler_def l)
  show "replace_handler rt options body req ident s
           = (Inl NotFound, logged (FindOne (lookup_where options req parsed)) s)"
    by (simp add: replace_handler_def l)
qed

lemma promise_pk: "crud_primaryKey promise_options = ''id''"
  by (simp add: crud_primaryKey_def promise_options_def plain_options_def plain_class_def)

lemma promise_parse: "parseId sample_runtime promise_options ''2'' = Inr (VStr ''2'')"
  by (simp add: parseId_def crud_primaryKeyType_def promise_options_def plain_options_def
      plain_class_def)

lemma promise_where:
  "lookup_where promise_options no_request (VStr ''2'') = [(''id'', Eq (VStr ''2''))]"
proof -
  have "call_filter promise_options no_request = Promise [(''owner'', Eq (VStr ''ann''))]"
    by (simp add: call_filter_def promise_options_def)
  then show ?thesis by (simp add: lookup_where_def promise_pk)
qed

lemma promise_awaited:
  "awaited_filter promise_options no_request = [(''owner'', Eq (VStr ''ann''))]"
  by (simp add: awaited_filter_def call_filter_def promise_options_def)

lemma promise_lookup:
  "lookup sample_runtime promise_options no_request ''2'' three_notes
     = (Inr (a_note ''2'' ''bob''), logged (FindOne [(''id'', Eq (VStr ''2''))]) three_notes)"
  by (simp add: lookup_def promise_parse promise_where service_findOne_def repo_findOne_def
      three_notes_def matches_def prop_of_def a_note_def)

lemma promise_by_pk:
  "by_primaryKey promise_options (a_note ''2'' ''bob'') = [(''id'', Eq (VStr ''2''))]"
  by (simp add: by_primaryKey_def promise_pk prop_of_def a_note_def)

text \<open>
  C7. The filter function may return a promise, and \<open>delete\<close>, \<open>update\<close> and
  \<open>replace\<close> spread its result without awaiting it. With such a filter the note of
  another owner, which no row matches under the scoping filter, is found by its id
  alone, and it is updated or deleted.
\<close>

theorem unawaited_filter_is_not_applied:
  "filter (matches (obj_set (crud_primaryKey promise_options) (Eq (VStr ''2''))
       (awaited_filter promise_options no_request))) (rows three_notes) = []
   \<and> fst (update_handler sample_runtime promise_options [(''owner'', VStr ''eve'')]
           no_request ''2'' three_notes) = Inr (a_note ''2'' ''eve'')
   \<and> rows (snd (update_handler sample_runtime promise_options [(''owner'', VStr ''eve'')]
           no_request ''2'' three_notes))
       = [a_note ''1'' ''ann'', a_note ''2'' ''eve'', a_note ''3'' ''ann'']
   \<and> fst (delete_handler sample_runtime promise_options no_request ''2'' three_notes) = Inr ()
   \<and> rows (snd (delete_handler sample_runtime promise_options no_request ''2'' three_notes))
       = [a_note ''1'' ''ann'', a_note ''3'' ''ann'']"
proof -
  have scoped: "filter (matches (obj_set (crud_primaryKey promise_options) (Eq (VStr ''2''))
       (awaited_filter promise_options no_request))) (rows three_notes) = []"
    by (simp add: promise_pk promise_awaited three_notes_def matches_def prop_of_def a_note_def)
  have body: "toUpdateBody [(''owner'', VStr ''eve'')] = [(''owner'', VStr ''eve'')]"
    by (simp add: toUpdateBody_def obj_assign_def)
  have e': "assign_entity (a_note ''2'' ''bob'') [(''owner'', VStr ''eve'')] = a_note ''2'' ''eve''"
    by (simp add: assign_entity_def a_note_def)
  have m: "matches [(''id'', Eq (VStr ''2''))] r = (r ''id'' = Some (VStr ''2''))" for r
    by (auto simp add: matches_def prop_of_def split: option.splits)
  let ?s1 = "logged (FindOne [(''id'', Eq (VStr ''2''))]) three_notes"
  have upd: "fst (service_update [(''id'', Eq (VStr ''2''))] [(''owner'', VStr ''eve'')] ?s1)
      = Inr (a_note ''2'' ''eve'')"
    "rows (snd (service_update [(''id'', Eq (VStr ''2''))] [(''owner'', VStr ''eve'')] ?s1))
      = [a_note ''1'' ''ann'', a_note ''2'' ''eve'', a_note ''3'' ''ann'']"
    by (simp_all add: service_update_def service_findOne_def repo_findOne_def m three_notes_def
        a_note_def e' [unfolded a_note_def] Let_def emit_def logged_def)
  have del: "rows (snd (service_delete [(''id'', Eq (VStr ''2''))] ?s1))
      = [a_note ''1'' ''ann'', a_note ''3'' ''ann'']"
    by (simp add: service_delete_def service_findOne_def repo_findOne_def repo_nativeDelete_def
        m three_notes_def a_note_def Let_def emit_def logged_def)
  show ?thesis
    by (simp add: scoped update_handler_def delete_handler_def promise_lookup promise_by_pk
        body upd del case_prod_beta)
qed

section \<open>Ids that cannot be parsed\<close>

text \<open>
  The interceptor answers an id that cannot be parsed with bad-request and changes
  nothing; an id that parses is looked up under the scoping filter, and the answer is
  not-found or the request with the entity attached.
\<close>

lemma parse_param_error:
  "parse_param rt as_objectid as_number idValue = Inl err \<Longrightarrow>
     (as_objectid \<and> newObjectId rt idValue = None \<and> err = BadRequest ''Invalid ObjectId'')
     \<or> (\<not> as_objectid \<and> as_number \<and> toNumber rt idValue = NaN \<and> err = BadRequest ''Invalid ID'')"
  by (auto simp: parse_param_def isNaN_def Let_def split: if_splits option.splits)

lemma parse_param_rejects:
  "as_objectid \<Longrightarrow> newObjectId rt idValue = None \<Longrightarrow>
     parse_param rt as_objectid as_number idValue = Inl (BadRequest ''Invalid ObjectId'')"
  "\<not> as_objectid \<Longrightarrow> as_number \<Longrightarrow> toNumber rt idValue = NaN \<Longrightarrow>
     parse_param rt as_objectid as_number idValue = Inl (BadRequest ''Invalid ID'')"
  by (simp_all add: parse_param_def isNaN_def)

lemma intercept_parse_error:
  "intercept_parse rt options metadata idValue = Inl err \<Longrightarrow> \<exists>msg. err = BadRequest msg"
  by (auto simp: intercept_parse_def Let_def split: option.splits dest!: parse_param_error)

lemma intercept_outcomes:
  assumes p: "params req (intercept_primaryKey metadata) = Some idValue"
    and ne: "idValue \<noteq> []"
  shows "(\<forall>err. intercept_parse rt options metadata idValue = Inl err \<longrightarrow>
            (\<exists>msg. err = BadRequest msg)
            \<and> intercept rt (Some options) metadata req s = (Inl err, s))"
    and "(\<forall>parsedId. intercept_parse rt options metadata idValue = Inr parsedId \<longrightarrow>
            (case find (matches (obj_set (intercept_primaryKey metadata) (Eq parsedId)
                       (intercept_filter options req))) (rows s) of
               None \<Rightarrow> fst (intercept rt (Some options) metadata req s) = Inl NotFound
             | Some e \<Rightarrow> fst (intercept rt (Some options) metadata req s)
                          = Inr (req\<lparr>fetched_entity := Some e\<rparr>)))"
proof -
  show "\<forall>err. intercept_parse rt options metadata idValue = Inl err \<longrightarrow>
            (\<exists>msg. err = BadRequest msg)
            \<and> intercept rt (Some options) metadata req s = (Inl err, s)"
    using p ne by (auto simp: intercept_def Let_def dest: intercept_parse_error)
  show "\<forall>parsedId. intercept_parse rt options metadata idValue = Inr parsedId \<longrightarrow>
            (case find (matches (obj_set (intercept_primaryKey metadata) (Eq parsedId)
                       (intercept_filter options req))) (rows s) of
               None \<Rightarrow> fst (intercept rt (Some options) metadata req s) = Inl NotFound
             | Some e \<Rightarrow> fst (intercept rt (Some options) metadata req s)
                          = Inr (req\<lparr>fetched_entity := Some e\<rparr>))"
    using p ne by (auto simp: intercept_def Let_def repo_findOne_def split: option.splits)
qed

lemma oid_pkt: "crud_primaryKeyType oid_options = TObjectId"
  by (simp add: crud_primaryKeyType_def oid_options_def plain_options_def plain_class_def
      plain_property_def is_objectid_type_def)

lemma zzz: "newObjectId sample_runtime ''zzz'' = None"
  by (simp add: sample_runtime_def)

text \<open>
  C6. \<open>parseId\<close> of the CRUD handlers does not reject an id that cannot be parsed: on
  a text that is no ObjectId the driver's exception leaves \<open>read\<close> as it is, and a
  text that is no number is looked up as \<open>NaN\<close> and answered with not-found. The
  interceptor answers both with bad-request.
\<close>

theorem handlers_do_not_reject_unparsable_ids:
  "read_handler sample_runtime oid_options (request_for ''id'' ''zzz'') ''zzz'' three_notes
     = (Inl BSONError, three_notes)
   \<and> fst (intercept sample_runtime (Some oid_options) (orm_meta (entity oid_options))
            (request_for ''_id'' ''zzz'') three_notes)
     = Inl (BadRequest ''Invalid ObjectId'')
   \<and> fst (read_handler sample_runtime num_options (request_for ''id'' ''abc'') ''abc'' three_notes)
     = Inl NotFound
   \<and> fst (intercept sample_runtime (Some num_options) (orm_meta (entity num_options))
            (request_for ''id'' ''abc'') three_notes)
     = Inl (BadRequest ''Invalid ID'')"
proof -
  have a: "read_handler sample_runtime oid_options (request_for ''id'' ''zzz'') ''zzz'' three_notes
     = (Inl BSONError, three_notes)"
    by (simp add: read_handler_def lookup_def parseId_def oid_pkt zzz)
  have m: "orm_meta (entity oid_options) = Some
       \<lparr>primaryKeys = [''_id''],
        properties = [(''_id'', (plain_property ''_id'' (TName ''ObjectId''))\<lparr>primary := True\<rparr>)]\<rparr>"
    by (simp add: oid_options_def)
  have b: "fst (intercept sample_runtime (Some oid_options) (orm_meta (entity oid_options))
            (request_for ''_id'' ''zzz'') three_notes)
     = Inl (BadRequest ''Invalid ObjectId'')"
    unfolding m
    by (simp add: intercept_def intercept_primaryKey_def request_for_def intercept_parse_def
        parse_param_def plain_property_def is_objectid_type_def zzz)
  have npkt: "crud_primaryKeyType num_options = TNumber"
    by (simp add: crud_primaryKeyType_def num_options_def plain_options_def plain_class_def
      plain_property_def is_objectid_type_def is_number_type_def)
  have npk: "crud_primaryKey num_options = ''id''"
    by (simp add: crud_primaryKey_def num_options_def plain_options_def plain_class_def)
  have abc: "toNumber sample_runtime ''abc'' = NaN"
    by (simp add: sample_runtime_def is_digit_def)
  have cf: "call_filter num_options (request_for ''id'' ''abc'') = Nothing"
    by (simp add: call_filter_def num_options_def plain_options_def)
  have c: "fst (read_handler sample_runtime num_options (request_for ''id'' ''abc'') ''abc'' three_notes)
     = Inl NotFound"
    by (simp add: read_handler_def lookup_def parseId_def npkt abc lookup_where_def npk cf
        service_findOne_def repo_findOne_def three_notes_def matches_def prop_of_def a_note_def)
  have m2: "orm_meta (entity num_options) = Some
       \<lparr>primaryKeys = [''id''],
        properties = [(''id'', (plain_property ''id'' (TName ''number''))\<lparr>primary := True\<rparr>)]\<rparr>"
    by (simp add: num_options_def)
  have d: "fst (intercept sample_runtime (Some num_options) (orm_meta (entity num_options))
            (request_for ''id'' ''abc'') three_notes)
     = Inl (BadRequest ''Invalid ID'')"
    unfolding m2
    by (simp add: intercept_def intercept_primaryKey_def request_for_def intercept_parse_def
        parse_param_def plain_property_def is_objectid_type_def is_number_type_def abc isNaN_def)
  show ?thesis using a b c d by simp
qed

section \<open>DTO derivation\<close>

lemma createDtos_stores:
  "createDto (createDtos options) \<noteq> None \<and> updateDto (createDtos options) \<noteq> None"
  by (cases "createDto options"; cases "updateDto options") (simp_all add: createDtos_def Let_def)

lemma createDtos_noop:
  "createDto options \<noteq> None \<and> updateDto options \<noteq> None \<Longrightarrow> createDtos options = options"
  by (cases "createDto options"; cases "updateDto options") (simp_all add: createDtos_def)

text \<open>
  C8. The factory stores both DTOs in the options, and a second call on the options
  it returned changes nothing.
\<close>

theorem createDtos_idempotent:
  "createDtos (createDtos options) = createDtos options
   \<and> createDto (createDtos options) \<noteq> None \<and> updateDto (createDtos options) \<noteq> None"
proof -
  have s: "createDto (createDtos options) \<noteq> None \<and> updateDto (createDtos options) \<noteq> None"
    by (rule createDtos_stores)
  then have "createDtos (createDtos options) = createDtos options"
    by (rule createDtos_noop)
  then show ?thesis using s by simp
qed

lemma createDtos_update:
  assumes "updateDto options = None"
  shows "\<exists>c. createDto (createDtos options) = Some c
             \<and> updateDto (createDtos options) = Some (DefaultUpdateDto (entity options) c)"
  using assms by (cases "createDto options") (simp_all add: createDtos_def Let_def)

lemma createDtos_create:
  assumes "createDto options = None"
  shows "createDto (createDtos options)
           = Some (DefaultCreateDto (entity options) (excluded_names (entity options)))"
  using assms by (cases "updateDto options") (simp_all add: createDtos_def Let_def)

lemma propertyName_optional_rule [simp]: "propertyName (optional_rule k) = k"
  by (simp add: optional_rule_def)

lemma PartialType_names:
  "propertyName ` set (validations (PartialType c)) = dto_fields c"
proof -
  let ?A = "propertyName ` set (validations c)"
  let ?B = "fst ` set (api_properties c)"
  have "propertyName ` set (validations (PartialType c)) = ?A \<union> (?A \<inter> {x. x \<notin> ?B} \<union> ?B)"
    by (simp add: PartialType_def image_Un image_image case_prod_unfold Collect_conj_eq Int_commute)
  also have "\<dots> = ?A \<union> ?B" by blast
  finally show ?thesis by (simp add: dto_fields_def)
qed

lemma PartialType_api_names:
  "fst ` set (api_properties (PartialType c)) = fst ` set (api_properties c)"
  by (force simp: PartialType_def image_iff split: prod.splits)

lemma PartialType_optional:
  assumes "f \<in> dto_fields c"
  shows "optional_rule f \<in> set (validations (PartialType c))"
proof (cases "f \<in> fst ` set (api_properties c)")
  case True
  then obtain a where "(f, a) \<in> set (api_properties c)" by auto
  then have "optional_rule f \<in> (\<lambda>(k, a). optional_rule k) ` set (api_properties c)"
    by force
  then show ?thesis by (simp add: PartialType_def)
next
  case False
  then have "f \<in> propertyName ` set (validations c)"
    using assms by (simp add: dto_fields_def)
  then have "f \<in> set (filter (\<lambda>k. k \<notin> fst ` set (api_properties c))
               (remdups (map propertyName (validations c))))"
    using False by simp
  then show ?thesis by (simp add: PartialType_def)
qed

lemma PartialType_not_required:
  "(f, a) \<in> set (api_properties (PartialType c)) \<Longrightarrow> \<not> required a"
  by (auto simp: PartialType_def)

lemma PartialType_keeps: "set (validations c) \<subseteq> set (validations (PartialType c))"
  by (simp add: PartialType_def)

lemma reregistered_set:
  "set (concat (map reregistered ms)) =
     (\<lambda>m. m\<lparr>each := False\<rparr>) ` {m \<in> set ms. propertyName m \<noteq> []}
     \<union> (\<lambda>m. optional_rule (propertyName m)) ` {m \<in> set ms. propertyName m \<noteq> []}"
  by (induction ms) (auto simp: reregistered_def)

lemma reregistered_name:
  "propertyName ` set (reregistered m) = (if propertyName m \<noteq> [] then {propertyName m} else {})"
proof (cases "propertyName m = []")
  case True
  then show ?thesis by (simp add: reregistered_def)
next
  case False
  have "set (reregistered m) = {m\<lparr>each := False\<rparr>, optional_rule (propertyName m)}"
    using False by (simp only: reregistered_def if_True not_False_eq_True list.set)
  then have "propertyName ` set (reregistered m)
      = {propertyName (m\<lparr>each := False\<rparr>), propertyName (optional_rule (propertyName m))}"
    by (simp only: image_insert image_empty)
  also have "\<dots> = {propertyName m}"
    by (simp add: optional_rule_def)
  finally show ?thesis using False by simp
qed

lemma reregistered_names:
  "propertyName ` set (concat (map reregistered ms)) =
     {k \<in> propertyName ` set ms. k \<noteq> []}"
proof -
  have "propertyName ` set (concat (map reregistered ms))
      = (\<Union>m \<in> set ms. propertyName ` set (reregistered m))"
    by (simp add: image_UN)
  also have "\<dots> = (\<Union>m \<in> set ms. if propertyName m \<noteq> [] then {propertyName m} else {})"
    by (simp only: reregistered_name)
  also have "\<dots> = {k \<in> propertyName ` set ms. k \<noteq> []}"
    by (auto split: if_splits)
  finally show ?thesis .
qed

lemma shadowed_name: "shadowed own m \<Longrightarrow> propertyName m \<in> propertyName ` set own"
proof -
  assume "shadowed own m"
  then obtain m' where "m' \<in> set own" "propertyName m' = propertyName m"
    by (auto simp: shadowed_def list_ex_iff)
  then show ?thesis by (metis imageI)
qed

lemma DefaultUpdateDto_validations:
  "validations (DefaultUpdateDto e c) =
     concat (map reregistered (validations c))
     @ filter (\<lambda>m. \<not> shadowed (concat (map reregistered (validations c))) m)
         (validations (PartialType c))"
  by (simp add: DefaultUpdateDto_def Let_def getTargetValidationMetadatas_def)

lemma DefaultUpdateDto_api:
  "api_properties (DefaultUpdateDto e c) = api_properties (PartialType c)"
  by (simp add: DefaultUpdateDto_def Let_def)

lemma DefaultUpdateDto_fields: "dto_fields (DefaultUpdateDto e c) = dto_fields c"
proof -
  let ?own = "concat (map reregistered (validations c))"
  let ?inh = "filter (\<lambda>m. \<not> shadowed ?own m) (validations (PartialType c))"
  let ?A = "propertyName ` set (validations c)"
  let ?B = "fst ` set (api_properties c)"
  have own: "propertyName ` set ?own = {k \<in> ?A. k \<noteq> []}"
    by (rule reregistered_names)
  have inh_sub: "propertyName ` set ?inh \<subseteq> ?A \<union> ?B"
    using PartialType_names [of c] by (auto simp: dto_fields_def)
  have empty_kept: "[] \<in> propertyName ` set ?inh" if "[] \<in> ?A"
  proof -
    from that obtain m where m: "m \<in> set (validations c)" and n: "propertyName m = []" by force
    have "\<not> shadowed ?own m"
      using shadowed_name [of ?own m] own n by auto
    then have "m \<in> set ?inh" using m PartialType_keeps [of c] by auto
    then show ?thesis using n by force
  qed
  have names: "propertyName ` set (validations (DefaultUpdateDto e c)) \<union> ?B = ?A \<union> ?B"
  proof
    show "propertyName ` set (validations (DefaultUpdateDto e c)) \<union> ?B \<subseteq> ?A \<union> ?B"
      unfolding DefaultUpdateDto_validations set_append image_Un own using inh_sub by auto
    show "?A \<union> ?B \<subseteq> propertyName ` set (validations (DefaultUpdateDto e c)) \<union> ?B"
    proof
      fix k assume k: "k \<in> ?A \<union> ?B"
      show "k \<in> propertyName ` set (validations (DefaultUpdateDto e c)) \<union> ?B"
      proof (cases "k \<in> ?B")
        case True then show ?thesis by simp
      next
        case False
        then have a: "k \<in> ?A" using k by simp
        show ?thesis
        proof (cases "k = []")
          case True
          then show ?thesis
            unfolding DefaultUpdateDto_validations set_append image_Un
            using empty_kept a by simp
        next
          case False
          then have "k \<in> propertyName ` set ?own" using a own by simp
          then show ?thesis
            unfolding DefaultUpdateDto_validations set_append image_Un by simp
        qed
      qed
    qed
  qed
  show ?thesis
    unfolding dto_fields_def [of "DefaultUpdateDto e c"] DefaultUpdateDto_api PartialType_api_names
    using names by (simp add: dto_fields_def)
qed

lemma DefaultUpdateDto_optional:
  assumes "f \<in> dto_fields c"
  shows "optional_rule f \<in> set (validations (DefaultUpdateDto e c))"
proof -
  let ?own = "concat (map reregistered (validations c))"
  show ?thesis
  proof (cases "f \<in> propertyName ` set ?own")
    case True
    then have "f \<in> propertyName ` set (validations c) \<and> f \<noteq> []"
      unfolding reregistered_names by simp
    then obtain m where "m \<in> set (validations c)" "propertyName m = f" "f \<noteq> []" by force
    then have "optional_rule f \<in> set ?own"
      unfolding reregistered_set by force
    then show ?thesis unfolding DefaultUpdateDto_validations by simp
  next
    case False
    have "propertyName (optional_rule f) = f" by (simp add: optional_rule_def)
    then have "\<not> shadowed ?own (optional_rule f)"
      using shadowed_name [of ?own "optional_rule f"] False by metis
    then show ?thesis
      unfolding DefaultUpdateDto_validations using PartialType_optional [OF assms] by simp
  qed
qed

lemma DefaultUpdateDto_rule:
  assumes "m \<in> set (validations c)"
  shows "m\<lparr>each := False\<rparr> \<in> set (validations (DefaultUpdateDto e c))
           \<or> (propertyName m = [] \<and> m \<in> set (validations (DefaultUpdateDto e c)))"
proof (cases "propertyName m = []")
  case True
  let ?own = "concat (map reregistered (validations c))"
  have "\<not> shadowed ?own m"
    using shadowed_name [of ?own m] True unfolding reregistered_names by auto
  then have "m \<in> set (validations (DefaultUpdateDto e c))"
    unfolding DefaultUpdateDto_validations using assms PartialType_keeps [of c] by auto
  then show ?thesis using True by simp
next
  case False
  then have "m\<lparr>each := False\<rparr> \<in> set (concat (map reregistered (validations c)))"
    unfolding reregistered_set using assms by blast
  then show ?thesis unfolding DefaultUpdateDto_validations by simp
qed

text \<open>
  What holds of a synthesized update DTO: it has exactly the fields of the create DTO,
  every one of them optional, and it carries every validation rule of the create DTO
  with \<open>each\<close> unset.
\<close>

lemma update_dto_of_create_dto:
  assumes "updateDto options = None"
  shows "\<exists>c u. createDto (createDtos options) = Some c
           \<and> updateDto (createDtos options) = Some u
           \<and> dto_fields u = dto_fields c
           \<and> (\<forall>f \<in> dto_fields u. optional_rule f \<in> set (validations u)
                 \<and> (\<forall>a. (f, a) \<in> set (api_properties u) \<longrightarrow> \<not> required a))
           \<and> (\<forall>m \<in> set (validations c). propertyName m \<noteq> [] \<longrightarrow>
                 m\<lparr>each := False\<rparr> \<in> set (validations u))
           \<and> (\<forall>m \<in> set (validations c). \<not> each m \<longrightarrow> m \<in> set (validations u))"
proof -
  from createDtos_update [OF assms] obtain c where
    c: "createDto (createDtos options) = Some c"
    and u: "updateDto (createDtos options) = Some (DefaultUpdateDto (entity options) c)"
    by blast
  let ?u = "DefaultUpdateDto (entity options) c"
  have f: "dto_fields ?u = dto_fields c" by (rule DefaultUpdateDto_fields)
  have o: "\<forall>f \<in> dto_fields ?u. optional_rule f \<in> set (validations ?u)
                 \<and> (\<forall>a. (f, a) \<in> set (api_properties ?u) \<longrightarrow> \<not> required a)"
    unfolding f DefaultUpdateDto_api
    using DefaultUpdateDto_optional PartialType_not_required by blast
  have r: "\<forall>m \<in> set (validations c). propertyName m \<noteq> [] \<longrightarrow>
                 m\<lparr>each := False\<rparr> \<in> set (validations ?u)"
    using DefaultUpdateDto_rule by blast
  have k: "\<forall>m \<in> set (validations c). \<not> each m \<longrightarrow> m \<in> set (validations ?u)"
  proof (intro ballI impI)
    fix m assume m: "m \<in> set (validations c)" and e: "\<not> each m"
    have "m\<lparr>each := False\<rparr> = m" using e by simp
    then show "m \<in> set (validations ?u)"
      using DefaultUpdateDto_rule [OF m, of "entity options"] by auto
  qed
  show ?thesis using c u f o r k by blast
qed

text \<open>
  C3. For an entity with a field \<open>tags\<close> that holds a list of texts, the create DTO
  checks every element of \<open>tags\<close> to be a non-empty text, and the update DTO checks
  \<open>tags\<close> itself: its rules \<open>IsString\<close> and \<open>IsNotEmpty\<close> have lost \<open>each\<close>, and the
  rules of the create DTO with \<open>each\<close> are not among them.
\<close>

theorem update_dto_drops_each:
  "map_option validations (createDto (createDtos tagged_options))
     = Some [\<lparr>propertyName = ''tags'', rule = IsString, each = True\<rparr>,
             \<lparr>propertyName = ''tags'', rule = IsArray, each = False\<rparr>,
             \<lparr>propertyName = ''tags'', rule = IsNotEmpty, each = True\<rparr>]
   \<and> map_option validations (updateDto (createDtos tagged_options))
     = Some [\<lparr>propertyName = ''tags'', rule = IsString, each = False\<rparr>,
             \<lparr>propertyName = ''tags'', rule = IsOptional, each = False\<rparr>,
             \<lparr>propertyName = ''tags'', rule = IsArray, each = False\<rparr>,
             \<lparr>propertyName = ''tags'', rule = IsOptional, each = False\<rparr>,
             \<lparr>propertyName = ''tags'', rule = IsNotEmpty, each = False\<rparr>,
             \<lparr>propertyName = ''tags'', rule = IsOptional, each = False\<rparr>]"
  by code_simp

lemma fold_transformer_step:
  "fold transformer_step ms acc = acc \<union> {tm_propertyName m | m. m \<in> set ms \<and> \<not> tm_toPlainOnly m}"
  by (induction ms arbitrary: acc) (auto simp: transformer_step_def)

lemma fold_swagger_step:
  "fold (swagger_step lvl) ps ex =
     ex \<union> {n. documented' ps n \<and> (apiModelProperties lvl n = Some True
                \<or> (\<exists>d. ownPropertyDescriptor lvl n = Some d \<and> \<not> writable d))}"
  if "documented' = (\<lambda>ps n. n \<in> strip_colon ` set ps)"
  unfolding that
  by (induction ps arbitrary: ex) (auto simp: swagger_step_def Let_def split: option.splits)

lemma fold_prototype_step:
  "fold (prototype_step lvl) ns ex =
     ex \<union> {n \<in> set ns. readonly_metadata lvl n
                \<or> (\<exists>d. ownPropertyDescriptor lvl n = Some d \<and> (has_get d \<or> \<not> writable d))}"
  by (induction ns arbitrary: ex) (auto simp: prototype_step_def Let_def split: option.splits)

lemma marked_readonly_levels:
  "marked_readonly c n =
     (readonly_metadata (own_level c) n \<or> (\<exists>lvl \<in> set (levels c). level_readonly lvl n))"
  by (simp add: marked_readonly_def level_readonly_def)

lemma excluded_walk_level:
  "excluded (walk_level lvl st) = excluded st \<union> {n. level_readonly lvl n}"
  unfolding walk_level_def
  by (simp add: fold_prototype_step fold_swagger_step [OF refl] level_readonly_def documented_def)
     blast

lemma excluded_fold_walk_level:
  "excluded (fold walk_level lvls st) = excluded st \<union> {n. \<exists>lvl \<in> set lvls. level_readonly lvl n}"
proof (induction lvls arbitrary: st)
  case Nil
  then show ?case by simp
next
  case (Cons l lvls)
  show ?case by (simp add: Cons.IH excluded_walk_level) blast
qed

lemma exposed_fold_walk_level:
  "exposedTransformerProps (fold walk_level lvls st) =
     exposedTransformerProps st
     \<union> {tm_propertyName m | lvl m. lvl \<in> set lvls \<and> m \<in> set (getExposedMetadatas lvl)
           \<and> \<not> tm_toPlainOnly m}"
proof (induction lvls arbitrary: st)
  case Nil
  then show ?case by simp
next
  case (Cons l lvls)
  have step: "exposedTransformerProps (walk_level l st) =
      exposedTransformerProps st
      \<union> {tm_propertyName m | m. m \<in> set (getExposedMetadatas l) \<and> \<not> tm_toPlainOnly m}"
    by (simp add: walk_level_def fold_transformer_step)
  show ?case unfolding fold_simps Cons.IH step by auto
qed

lemma excludedProps_fold_walk_level:
  "excludedTransformerProps (fold walk_level lvls st) =
     excludedTransformerProps st
     \<union> {tm_propertyName m | lvl m. lvl \<in> set lvls \<and> m \<in> set (getExcludedMetadatas lvl)
           \<and> \<not> tm_toPlainOnly m}"
proof (induction lvls arbitrary: st)
  case Nil
  then show ?case by simp
next
  case (Cons l lvls)
  have step: "excludedTransformerProps (walk_level l st) =
      excludedTransformerProps st
      \<union> {tm_propertyName m | m. m \<in> set (getExcludedMetadatas l) \<and> \<not> tm_toPlainOnly m}"
    by (simp add: walk_level_def fold_transformer_step)
  show ?case unfolding fold_simps Cons.IH step by auto
qed

lemma strategy_fold_walk_level:
  "transformerStrategy (fold walk_level lvls st) =
     (case filter (\<lambda>l. getStrategy l \<noteq> StrategyNone) lvls of
        [] \<Rightarrow> transformerStrategy st
      | l # ls \<Rightarrow> getStrategy (last (l # ls)))"
proof (induction lvls arbitrary: st)
  case Nil
  then show ?case by simp
next
  case (Cons l lvls)
  have step: "transformerStrategy (walk_level l st) =
      (if getStrategy l \<noteq> StrategyNone then getStrategy l else transformerStrategy st)"
    by (simp add: walk_level_def)
  show ?case
    unfolding fold_simps Cons.IH step
    by (simp split: list.splits)
qed

lemma walk_chain_facts:
  "transformerStrategy (walk_chain c) = strategy_of c"
  "Some n \<in> exposedTransformerProps (walk_chain c) = listed_in getExposedMetadatas c n"
  "Some n \<in> excludedTransformerProps (walk_chain c) = listed_in getExcludedMetadatas c n"
  "excluded (walk_chain c) = {n. \<exists>lvl \<in> set (levels c). level_readonly lvl n}"
proof -
  show "transformerStrategy (walk_chain c) = strategy_of c"
    by (simp add: walk_chain_def strategy_fold_walk_level strategy_of_def split: list.splits)
  show "Some n \<in> exposedTransformerProps (walk_chain c) = listed_in getExposedMetadatas c n"
    unfolding walk_chain_def exposed_fold_walk_level listed_in_def by simp metis
  show "Some n \<in> excludedTransformerProps (walk_chain c) = listed_in getExcludedMetadatas c n"
    unfolding walk_chain_def excludedProps_fold_walk_level listed_in_def by simp metis
  show "excluded (walk_chain c) = {n. \<exists>lvl \<in> set (levels c). level_readonly lvl n}"
    by (simp add: walk_chain_def excluded_fold_walk_level)
qed

lemma property_excluded_iff:
  "property_excluded c (walk_chain c) p =
     (primary p \<or> auto_generated p \<or> readonly_metadata (own_level c) (name p)
      \<or> \<not> exposed_field c (name p))"
  unfolding property_excluded_def walk_chain_facts exposed_field_def auto_generated_def
  by auto

lemma fold_insert_names:
  "fold (\<lambda>p ex. if Q p then insert (name p) ex else ex) ps ex0 =
     ex0 \<union> {name p | p. p \<in> set ps \<and> Q p}"
  by (induction ps arbitrary: ex0) auto

lemma excluded_names_iff:
  "n \<in> excluded_names c =
     (marked_readonly' \<or> (\<exists>p \<in> set (meta_values c). name p = n \<and>
        (primary p \<or> auto_generated p \<or> readonly_metadata (own_level c) n
         \<or> \<not> exposed_field c n)))"
  if "marked_readonly' = (\<exists>lvl \<in> set (levels c). level_readonly lvl n)"
  unfolding that excluded_names_def Let_def fold_insert_names walk_chain_facts
  by (auto simp: property_excluded_iff)

lemma prop_validations_names:
  "propertyName ` set (prop_validations c p) = {name p}"
  by (auto simp: prop_validations_def Let_def split: option.splits)

lemma DefaultCreateDto_fields:
  "dto_fields (DefaultCreateDto c ex) = {name p | p. p \<in> set (meta_values c) \<and> name p \<notin> ex}"
proof -
  have v: "propertyName ` set (validations (DefaultCreateDto c ex))
      = {name p | p. p \<in> set (meta_values c) \<and> name p \<notin> ex}"
    by (auto simp: DefaultCreateDto_def Let_def image_UN prop_validations_names image_iff)
  have a: "fst ` set (api_properties (DefaultCreateDto c ex))
      = {name p | p. p \<in> set (meta_values c) \<and> name p \<notin> ex}"
    by (auto simp: DefaultCreateDto_def Let_def prop_api_def image_iff)
  show ?thesis unfolding dto_fields_def v a by simp
qed

text \<open>
  C2. The fields of a synthesized create DTO are the schema fields that are exposed and
  that are neither a primary key, nor auto-generated, nor marked readonly.
\<close>

theorem create_dto_fields:
  assumes "createDto options = None"
    and "orm_meta (entity options) = Some meta"
  shows "\<exists>d. createDto (createDtos options) = Some d
           \<and> dto_fields d =
               {n \<in> name ` snd ` set (properties meta).
                  \<not> (\<exists>p \<in> snd ` set (properties meta).
                        name p = n \<and> (primary p \<or> auto_generated p))
                  \<and> \<not> marked_readonly (entity options) n
                  \<and> exposed_field (entity options) n}"
proof -
  let ?c = "entity options"
  have mv: "set (meta_values ?c) = snd ` set (properties meta)"
    by (simp add: meta_values_def assms(2))
  have d: "createDto (createDtos options) = Some (DefaultCreateDto ?c (excluded_names ?c))"
    by (rule createDtos_create [OF assms(1)])
  have "dto_fields (DefaultCreateDto ?c (excluded_names ?c)) =
      {n \<in> name ` snd ` set (properties meta).
         \<not> (\<exists>p \<in> snd ` set (properties meta). name p = n \<and> (primary p \<or> auto_generated p))
         \<and> \<not> marked_readonly ?c n \<and> exposed_field ?c n}"
    unfolding DefaultCreateDto_fields excluded_names_iff [OF refl] marked_readonly_levels mv
    by blast
  then show ?thesis using d by simp
qed

section \<open>Query-filter translation\<close>

lemma map_of_obj_set: "map_of (obj_set k v kvs) k' = (if k' = k then Some v else map_of kvs k')"
  by (induction kvs) auto

lemma map_of_obj_assign_other:
  "k \<notin> fst ` set source \<Longrightarrow> map_of (obj_assign target source) k = map_of target k"
  unfolding obj_assign_def
  by (induction source arbitrary: target) (auto simp: map_of_obj_set)

lemma string_is_no_range_type: "isString t \<Longrightarrow> \<not> isNumber t \<and> \<not> isDate t \<and> \<not> isBoolean t"
  by (auto simp: isString_def isNumber_def isDate_def isBoolean_def toLowerCase_def lower_char_def)

lemma spread_exact_range_type:
  "isNumber t \<or> isDate t \<Longrightarrow> spread_wval (Some (WVal (exact_value rt t v))) = []"
  by (auto simp: exact_value_def isNumber_def isBoolean_def)

lemma range_of_bounds:
  "range_of rt t lo hi =
     (case lo of None \<Rightarrow> [] | Some v \<Rightarrow> [(''$gte'', bound_value rt t v)])
     @ (case hi of None \<Rightarrow> [] | Some v \<Rightarrow> [(''$lte'', bound_value rt t v)])"
  by (simp add: range_of_def split: option.splits)

lemma obj_assign_range: "obj_assign [] (range_of rt t lo hi) = range_of rt t lo hi"
  by (simp add: range_of_def obj_assign_def split: option.splits)

lemma parse_entry_other:
  assumes "fst entry \<noteq> key"
    and "\<forall>g v. snd entry = Custom g \<longrightarrow> key \<notin> fst ` set (g v)"
  shows "map_of (parse_entry rt query meta c entry wh) key = map_of wh key"
proof (cases "snd entry")
  case (Flag b)
  then show ?thesis using assms(1)
    by (cases b) (simp_all add: parse_entry_def Let_def map_of_obj_set split: option.splits)
next
  case (Custom g)
  then show ?thesis using assms(2)
    by (simp add: parse_entry_def Let_def map_of_obj_assign_other split: option.splits)
qed

lemma fold_parse_entry_other:
  assumes "\<forall>entry \<in> set entries. fst entry \<noteq> key
      \<and> (\<forall>g v. snd entry = Custom g \<longrightarrow> key \<notin> fst ` set (g v))"
  shows "map_of (fold (parse_entry rt query meta c) entries wh) key = map_of wh key"
  using assms
proof (induction entries arbitrary: wh)
  case Nil
  then show ?case by simp
next
  case (Cons entry entries)
  have "map_of (fold (parse_entry rt query meta c) entries (parse_entry rt query meta c entry wh)) key
      = map_of (parse_entry rt query meta c entry wh) key"
    using Cons.prems by (intro Cons.IH) simp
  also have "\<dots> = map_of wh key"
    using Cons.prems by (intro parse_entry_other) simp_all
  finally show ?case by simp
qed

lemma parse_entry_range:
  assumes "map_of (properties meta) key = Some prop"
    and "map_of wh key = None"
    and "isNumber (ptype prop) \<or> isDate (ptype prop)"
    and "query (exposedName c key @ ''.min'') \<noteq> None \<or> query (exposedName c key @ ''.max'') \<noteq> None"
  shows "map_of (parse_entry rt query meta c (key, Flag True) wh) key =
     Some (WObj (range_of rt (ptype prop) (query (exposedName c key @ ''.min''))
                   (query (exposedName c key @ ''.max''))))"
proof -
  have ns: "\<not> isString (ptype prop)"
    using assms(3) string_is_no_range_type by blast
  show ?thesis
    using assms ns
    by (cases "query (exposedName c key)")
       (auto simp add: parse_entry_def Let_def map_of_obj_set spread_exact_range_type
          obj_assign_range split: option.splits)
qed

lemma parse_entry_contains:
  assumes "map_of (properties meta) key = Some prop"
    and "isString (ptype prop)"
    and "query (exposedName c key @ ''.contains'') = Some v"
    and "query (exposedName c key) = None"
    and "map_of wh key = None"
  shows "map_of (parse_entry rt query meta c (key, Flag True) wh) key =
           Some (WObj [(''$like'', WVal (VStr (''%'' @ v @ ''%'')))])"
proof -
  have nr: "\<not> isNumber (ptype prop) \<and> \<not> isDate (ptype prop)"
    using assms(2) string_is_no_range_type by blast
  show ?thesis
    using assms nr
    by (simp add: parse_entry_def Let_def map_of_obj_set split: option.splits)
qed

lemma parse_entry_exact_and_contains:
  assumes "map_of (properties meta) key = Some prop"
    and "isString (ptype prop)"
    and "query (exposedName c key @ ''.contains'') = Some v"
    and "query (exposedName c key) = Some x"
  shows "map_of (parse_entry rt query meta c (key, Flag True) wh) key =
           Some (WObj (obj_set ''$like'' (WVal (VStr (''%'' @ v @ ''%''))) (string_entries x)))"
proof -
  have nr: "\<not> isNumber (ptype prop) \<and> \<not> isDate (ptype prop) \<and> \<not> isBoolean (ptype prop)"
    using assms(2) string_is_no_range_type by blast
  show ?thesis
    using assms nr
    by (simp add: parse_entry_def Let_def map_of_obj_set exact_value_def split: option.splits)
qed

text \<open>
  For a field that is configured with \<open>true\<close> and that no custom filter writes: on a
  numeric or date field \<open>.min\<close> and \<open>.max\<close> become one object with a \<open>$gte\<close> and a
  \<open>$lte\<close> bound; on a string field \<open>.contains\<close> becomes the object that holds
  \<open>$like\<close> with the value between percent signs, after the characters of the
  exact-match text of the same field under their indices, if there is such a text.
\<close>

lemma translation_of_range_and_contains:
  assumes meta: "orm_meta c = Some meta"
    and entry: "(key, Flag True) \<in> set filterConfig"
    and keys: "distinct (map fst filterConfig)"
    and found: "map_of (properties meta) key = Some prop"
    and custom: "\<forall>k g v. (k, Custom g) \<in> set filterConfig \<longrightarrow> key \<notin> fst ` set (g v)"
  shows "((isNumber (ptype prop) \<or> isDate (ptype prop))
            \<and> (query (exposedName c key @ ''.min'') \<noteq> None
               \<or> query (exposedName c key @ ''.max'') \<noteq> None) \<longrightarrow>
          map_of (parseQueryFilters rt query filterConfig c) key =
            Some (WObj
              ((case query (exposedName c key @ ''.min'') of
                  None \<Rightarrow> [] | Some v \<Rightarrow> [(''$gte'', bound_value rt (ptype prop) v)])
               @ (case query (exposedName c key @ ''.max'') of
                  None \<Rightarrow> [] | Some v \<Rightarrow> [(''$lte'', bound_value rt (ptype prop) v)]))))
       \<and> (isString (ptype prop) \<longrightarrow>
            (\<forall>v. query (exposedName c key @ ''.contains'') = Some v \<longrightarrow>
               map_of (parseQueryFilters rt query filterConfig c) key =
                 Some (WObj (obj_set ''$like'' (WVal (VStr (''%'' @ v @ ''%'')))
                         (case query (exposedName c key) of
                            None \<Rightarrow> [] | Some x \<Rightarrow> string_entries x)))))"
proof -
  from entry obtain pre post where split: "filterConfig = pre @ (key, Flag True) # post"
    by (auto dest: split_list)
  have others: "\<forall>entry \<in> set pre \<union> set post. fst entry \<noteq> key
      \<and> (\<forall>g v. snd entry = Custom g \<longrightarrow> key \<notin> fst ` set (g v))"
  proof
    fix e assume e: "e \<in> set pre \<union> set post"
    have "fst e \<noteq> key" using keys e unfolding split by force
    moreover have "\<forall>g v. snd e = Custom g \<longrightarrow> key \<notin> fst ` set (g v)"
    proof (intro allI impI)
      fix g v assume "snd e = Custom g"
      then have "(fst e, Custom g) \<in> set filterConfig"
        using e unfolding split by (cases e) auto
      then show "key \<notin> fst ` set (g v)" using custom by blast
    qed
    ultimately show "fst e \<noteq> key \<and> (\<forall>g v. snd e = Custom g \<longrightarrow> key \<notin> fst ` set (g v))"
      by blast
  qed
  let ?step = "parse_entry rt query meta c"
  let ?wh = "fold ?step pre []"
  have o_pre: "\<forall>entry \<in> set pre. fst entry \<noteq> key
      \<and> (\<forall>g v. snd entry = Custom g \<longrightarrow> key \<notin> fst ` set (g v))"
    using others by blast
  have o_post: "\<forall>entry \<in> set post. fst entry \<noteq> key
      \<and> (\<forall>g v. snd entry = Custom g \<longrightarrow> key \<notin> fst ` set (g v))"
    using others by blast
  have before: "map_of ?wh key = None"
    by (simp add: fold_parse_entry_other [OF o_pre])
  have result: "map_of (parseQueryFilters rt query filterConfig c) key
      = map_of (?step (key, Flag True) ?wh) key"
    by (simp add: parseQueryFilters_def meta split fold_parse_entry_other [OF o_post])
  show ?thesis
    unfolding result
  proof (intro conjI impI allI)
    assume "(isNumber (ptype prop) \<or> isDate (ptype prop))
            \<and> (query (exposedName c key @ ''.min'') \<noteq> None
               \<or> query (exposedName c key @ ''.max'') \<noteq> None)"
    then show "map_of (?step (key, Flag True) ?wh) key =
            Some (WObj
              ((case query (exposedName c key @ ''.min'') of
                  None \<Rightarrow> [] | Some v \<Rightarrow> [(''$gte'', bound_value rt (ptype prop) v)])
               @ (case query (exposedName c key @ ''.max'') of
                  None \<Rightarrow> [] | Some v \<Rightarrow> [(''$lte'', bound_value rt (ptype prop) v)])))"
      using parse_entry_range [OF found before] by (simp add: range_of_bounds)
  next
    fix v
    assume s: "isString (ptype prop)" and q: "query (exposedName c key @ ''.contains'') = Some v"
    show "map_of (?step (key, Flag True) ?wh) key =
            Some (WObj (obj_set ''$like'' (WVal (VStr (''%'' @ v @ ''%'')))
                    (case query (exposedName c key) of
                       None \<Rightarrow> [] | Some x \<Rightarrow> string_entries x)))"
    proof (cases "query (exposedName c key)")
      case None
      then show ?thesis
        using parse_entry_contains [OF found s q None before] by simp
    next
      case (Some x)
      then show ?thesis
        using parse_entry_exact_and_contains [OF found s q Some] by simp
    qed
  qed
qed

text \<open>
  C5. The query string \<open>title=abc&title.contains=x\<close> on the string field \<open>title\<close> is
  translated into an object that holds the characters of \<open>abc\<close> under the keys 0, 1
  and 2 beside \<open>$like\<close>: the exact-match text is spread into the object of operators.
\<close>

theorem contains_spreads_exact_text:
  "parseQueryFilters sample_runtime exact_and_contains task_filters task_class
     = [(''title'', WObj [(''0'', WVal (VStr ''a'')), (''1'', WVal (VStr ''b'')),
                          (''2'', WVal (VStr ''c'')), (''$like'', WVal (VStr ''%x%''))])]"
  by code_simp

section \<open>The task entity, worked through\<close>

lemma task_names: "name ` snd ` set (properties task_meta)
    = {''id'', ''title'', ''estimate'', ''createdAt'', ''locked'', ''secret''}"
  by (simp add: task_meta_def plain_property_def)

lemma task_strategy: "strategy_of task_class = ExcludeAll"
  by (simp add: strategy_of_def levels_def task_class_def task_level_def plain_class_def no_level_def)

lemma task_exposed:
  "exposed_field task_class n = (n \<in> {''id'', ''title'', ''estimate'', ''createdAt'', ''locked''})"
  unfolding exposed_field_def task_strategy
  by (auto simp add: listed_in_def levels_def task_class_def
      task_level_def plain_class_def no_level_def expose_def)

lemma task_readonly: "marked_readonly task_class n = (n = ''locked'')"
  by (simp add: marked_readonly_def levels_def task_class_def task_level_def plain_class_def
      no_level_def documented_def)

lemma task_generated:
  "(\<exists>p \<in> snd ` set (properties task_meta). name p = n \<and> (primary p \<or> auto_generated p))
     = (n \<in> {''id'', ''createdAt''})"
  by (auto simp add: task_meta_def plain_property_def auto_generated_def)

theorem create_dto_fields_witness:
  "createDto task_options = None \<and> orm_meta (entity task_options) = Some task_meta
   \<and> (\<exists>d. createDto (createDtos task_options) = Some d
          \<and> dto_fields d = {''title'', ''estimate''})"
proof -
  have a: "createDto task_options = None"
    by (simp add: task_options_def plain_options_def)
  have b: "orm_meta (entity task_options) = Some task_meta"
    by (simp add: task_options_def task_class_def)
  have e: "entity task_options = task_class"
    by (simp add: task_options_def)
  from create_dto_fields [OF a b] obtain d where
    d: "createDto (createDtos task_options) = Some d"
    and f: "dto_fields d =
               {n \<in> name ` snd ` set (properties task_meta).
                  \<not> (\<exists>p \<in> snd ` set (properties task_meta).
                        name p = n \<and> (primary p \<or> auto_generated p))
                  \<and> \<not> marked_readonly (entity task_options) n
                  \<and> exposed_field (entity task_options) n}"
    by blast
  have "dto_fields d = {''title'', ''estimate''}"
    unfolding f e task_names task_generated task_readonly task_exposed by auto
  then show ?thesis using a b d by blast
qed

theorem createDtos_idempotent_witness:
  "createDtos (createDtos task_options) = createDtos task_options
   \<and> createDto (createDtos task_options)
       = Some (DefaultCreateDto task_class (excluded_names task_class))"
proof -
  have n: "createDto task_options = None"
    by (simp add: task_options_def plain_options_def)
  have e: "entity task_options = task_class"
    by (simp add: task_options_def)
  show ?thesis
    using createDtos_idempotent [of task_options] createDtos_create [OF n] by (simp add: e)
qed

text \<open>
  The query string \<open>estimate.min=10&estimate.max=20&title.contains=ab\<close> on the task
  entity: one range object on \<open>estimate\<close> and one \<open>$like\<close> object on \<open>title\<close>.
\<close>

lemma task_query_translated:
  "parseQueryFilters sample_runtime task_query task_filters task_class
     = [(''estimate'', WObj [(''$gte'', WVal (VNum (Finite 10))), (''$lte'', WVal (VNum (Finite 20)))]),
        (''title'', WObj [(''$like'', WVal (VStr ''%ab%''))])]"
  by code_simp

end
